theory Spec2Isabelle
  imports Complex_Main "HOL-Library.Word" "HOL-Library.List_Lexorder"
begin

unbundle bit_operations_syntax

section \<open>GeometryIdEncoder (src/components/viewport/gpu_picking/GeometryGPUPickingAdapter.ts)\<close>

text \<open>
  JavaScript's bitwise operators convert their operands to 32-bit signed integers and
  give a 32-bit signed integer back. The ids and indices handled here are integral
  numbers, modelled as \<open>int\<close>; \<open>ToInt32\<close> is the conversion, and every operator
  reads its result back as a signed value.
\<close>

definition ToInt32 :: "int \<Rightarrow> 32 word" where
  "ToInt32 n = word_of_int n"

definition js_shl :: "int \<Rightarrow> int \<Rightarrow> int" where
  "js_shl a n = sint (push_bit (nat (n mod 32)) (ToInt32 a))"

definition js_sar :: "int \<Rightarrow> int \<Rightarrow> int" where
  "js_sar a n = sint (signed_drop_bit (nat (n mod 32)) (ToInt32 a))"

definition js_and :: "int \<Rightarrow> int \<Rightarrow> int" where
  "js_and a b = sint (ToInt32 a AND ToInt32 b)"

definition js_or :: "int \<Rightarrow> int \<Rightarrow> int" where
  "js_or a b = sint (ToInt32 a OR ToInt32 b)"

datatype geometry_type = Edge | Face

datatype encoder_error = PreconditionFailure

text \<open>
  \<open>encode(type, parentId, index)\<close>: the two guards, then the packing
  \<open>parentId << 16 | d << 8 | e\<close> with \<open>d = c | ((index >> 8) & 0xef)\<close>.
\<close>

definition encode :: "geometry_type \<Rightarrow> int \<Rightarrow> int \<Rightarrow> encoder_error + int" where
  "encode ty parentId index =
     (if parentId > js_shl 1 16 then Inl PreconditionFailure
      else if index > js_shl 1 15 then Inl PreconditionFailure
      else
        let parentId' = js_shl parentId 16;
            c = js_shl (if ty = Edge then 0 else 1) 7;
            d = js_or c (js_and (js_sar index 8) 0xef);
            e = js_and (js_sar index 0) 255;
            ident = js_or (js_or parentId' (js_shl d 8)) e
        in Inr ident)"

record decoded =
  dec_parentId :: int
  dec_type :: int
  dec_index :: int

definition decode :: "int \<Rightarrow> decoded" where
  "decode compact0 =
     (let parentId = js_sar compact0 16;
          compact1 = js_and compact0 0xffff;
          ty = js_sar compact1 15;
          compact2 = js_and compact1 0x7fff;
          index = compact2
      in \<lparr>dec_parentId = parentId, dec_type = ty, dec_index = index\<rparr>)"

section \<open>SnapPresentation (unnamed/part_001)\<close>

text \<open>
  A JavaScript string is a sequence of UTF-16 code units, and the default
  \<open>Array.prototype.sort\<close> orders strings by comparing code units from the left, a
  proper prefix first: the lexicographic order on lists of naturals.
\<close>

type_synonym js_string = "nat list"

record 'h Snap =
  helper :: "'h option"
  name :: "js_string option"

record ('h, 'v, 'q) SnapResult =
  snap :: "'h Snap"
  orientation :: 'q
  position :: 'v
  cursorPosition :: 'v
  cursorOrientation :: 'q

record ('h, 'v, 'q, 'c) SnapInfo = "('h, 'v, 'q) SnapResult" +
  constructionPlane :: 'c
  cameraPosition :: 'v
  cameraOrientation :: 'q

record ('v, 'q) Camera =
  cam_position :: 'v
  cam_quaternion :: 'q

text \<open>The \<open>SnapIndicator\<close> passed in as \<open>presenter\<close>: its two methods.\<close>

record ('p, 'h, 'v, 'q) SnapIndicator =
  nearbyIndicatorFor :: "'p \<Rightarrow> 'h"
  snapIndicatorFor :: "('h, 'v, 'q) SnapResult \<Rightarrow> 'h"

record ('h, 'v, 'q, 'c) SnapPresentation =
  helpers :: "'h list"
  info :: "('h, 'v, 'q, 'c) SnapInfo option"
  names :: "js_string list"
  nearby :: "'h list"

text \<open>
  The loop over \<open>intersections\<close>: a defined helper is pushed on \<open>helpers\<close>, a
  defined name on \<open>names\<close>.
\<close>

fun collect ::
  "('h, 'v, 'q) SnapResult list \<Rightarrow> 'h list \<times> js_string list \<Rightarrow> 'h list \<times> js_string list" where
  "collect [] acc = acc"
| "collect (intersection # rest) (hs, ns) =
     collect rest
       ((case helper (snap intersection) of None \<Rightarrow> hs | Some h \<Rightarrow> hs @ [h]),
        (case name (snap intersection) of None \<Rightarrow> ns | Some n \<Rightarrow> ns @ [n]))"

text \<open>
  \<open>[...new Set(names)]\<close>: a Set keeps the first occurrence of each element, in
  insertion order.
\<close>

fun Set_spread :: "'a list \<Rightarrow> 'a list \<Rightarrow> 'a list" where
  "Set_spread seen [] = seen"
| "Set_spread seen (x # xs) = Set_spread (if x \<in> set seen then seen else seen @ [x]) xs"

definition new_SnapPresentation ::
  "'p list \<Rightarrow> ('h, 'v, 'q) SnapResult list \<Rightarrow> 'c \<Rightarrow> ('v, 'q) Camera \<Rightarrow>
   ('p, 'h, 'v, 'q) SnapIndicator \<Rightarrow> 'h list \<Rightarrow> ('h, 'v, 'q, 'c) SnapPresentation" where
  "new_SnapPresentation nearby0 intersections cplane camera presenter activatedHelpers =
     (let nearby1 = map (nearbyIndicatorFor presenter) nearby0 in
      case intersections of
        [] \<Rightarrow> \<lparr>helpers = [], info = None, names = [], nearby = nearby1\<rparr>
      | first # _ \<Rightarrow>
          let info1 = SnapResult.extend first
                \<lparr>constructionPlane = cplane,
                 cameraPosition = cam_position camera,
                 cameraOrientation = cam_quaternion camera\<rparr>;
              indicator = snapIndicatorFor presenter first;
              (helpers1, names1) = collect intersections (activatedHelpers @ [indicator], [])
          in \<lparr>helpers = helpers1, info = Some info1,
              names = sort (Set_spread [] names1), nearby = nearby1\<rparr>)"

section \<open>Cancellable resources (src/util/Cancellable.ts)\<close>

text \<open>
  A method or callback of type \<open>() => void\<close> runs in a world \<open>'w\<close> (everything it can
  read and write: disposables, the settlement of promises, application state). It either
  returns, leaving a new world, or throws a value, leaving the world as it was when
  the exception was raised.
\<close>

datatype ('e, 'w) completion = Normal 'w | Throw 'e 'w

datatype 'e thrown = TypeError | Raised 'e

type_synonym ('e, 'w) callback = "'w \<Rightarrow> ('e thrown, 'w) completion"

text \<open>\<open>Cancellable & Finishable\<close>: an object with the two methods.\<close>

record ('e, 'w) Resource =
  cancel :: "('e, 'w) callback"
  finish :: "('e, 'w) callback"

text \<open>Calling a method twice in a row; the second call is not reached when the first throws.\<close>

definition twice :: "('e, 'w) callback \<Rightarrow> ('e, 'w) callback" where
  "twice m w = (case m w of Normal w1 \<Rightarrow> m w1 | Throw e w1 \<Rightarrow> Throw e w1)"

text \<open>
  \<open>CancellableDisposable\<close>: both methods dispose the wrapped event-kit Disposable,
  whose \<open>dispose\<close> is taken as a parameter.
\<close>

definition CancellableDisposable :: "('e, 'w) callback \<Rightarrow> ('e, 'w) Resource" where
  "CancellableDisposable dispose = \<lparr>cancel = dispose, finish = dispose\<rparr>"

text \<open>
  The constructor of \<open>CancellablePromise\<close> runs the executor synchronously inside
  \<open>new Promise\<close> and stores the two callbacks it returns in the fields \<open>cancel\<close> and
  \<open>finish\<close>. The executor's \<open>resolve\<close> and \<open>reject\<close> act on the settlement of the inner
  promise, which is part of the world. When the executor throws, \<open>new Promise\<close> turns the
  exception into a rejection and the two fields stay unassigned: calling one of them
  throws a TypeError.
\<close>

type_synonym ('e, 'w) Executor = "'w \<Rightarrow> 'w \<times> ('e + ('e, 'w) Resource)"

definition new_CancellablePromise ::
  "('e, 'w) Executor \<Rightarrow> 'w \<Rightarrow> 'w \<times> ('e, 'w) Resource" where
  "new_CancellablePromise executor w =
     (case executor w of
        (w1, Inr callbacks) \<Rightarrow> (w1, \<lparr>cancel = cancel callbacks, finish = finish callbacks\<rparr>)
      | (w1, Inl e) \<Rightarrow> (w1, \<lparr>cancel = Throw TypeError, finish = Throw TypeError\<rparr>))"

text \<open>
  \<open>CancellablePromise.resolve()\<close>: the executor resolves at once (\<open>resolve\<close> is the
  effect of that on the world) and returns two callbacks that do nothing.
\<close>

definition CancellablePromise_resolve :: "('w \<Rightarrow> 'w) \<Rightarrow> 'w \<Rightarrow> 'w \<times> ('e, 'w) Resource" where
  "CancellablePromise_resolve resolve =
     new_CancellablePromise (\<lambda>w. (resolve w, Inr \<lparr>cancel = Normal, finish = Normal\<rparr>))"

text \<open>
  Objects are referred to by reference. A \<open>CancellableRegistor\<close> is its private array
  \<open>resources\<close>, which holds references to the registered objects; \<open>objects\<close> gives the
  object a reference denotes. The registrar is part of the world its resources'
  callbacks run in: a callback that registers a resource changes the array while
  \<open>cancel()\<close> or \<open>finish()\<close> is iterating it.
\<close>

record CancellableRegistor =
  resources :: "nat list"

record 'u world =
  registor :: CancellableRegistor
  others :: 'u

text \<open>\<open>resource(x)\<close> pushes \<open>x\<close> and returns it.\<close>

definition CancellableRegistor_resource :: "nat \<Rightarrow> 'u world \<Rightarrow> 'u world \<times> nat" where
  "CancellableRegistor_resource x w =
     (w\<lparr>registor := (registor w)\<lparr>resources := resources (registor w) @ [x]\<rparr>\<rparr>, x)"

text \<open>
  \<open>for (const resource of array) { resource.m(); }\<close> for a method \<open>m\<close>. The array
  iterator reads the array as it is at each step: position \<open>i\<close> is visited when \<open>i\<close> is
  below the length the array has then. The loop has no \<open>try\<close>: an exception thrown by a
  call leaves the loop. A loop whose array grows at every step never returns (\<open>None\<close>).
  Beside the completion, the result holds the positions of the resources whose method
  was called, in the order of the calls.
\<close>

partial_function (option) for_of ::
  "(('e, 'w) Resource \<Rightarrow> ('e, 'w) callback) \<Rightarrow> ('w \<Rightarrow> ('e, 'w) Resource list) \<Rightarrow> nat \<Rightarrow> 'w \<Rightarrow>
   (nat list \<times> ('e thrown, 'w) completion) option" where
  "for_of m array i w =
     (if i < length (array w) then
        (case m (array w ! i) w of
           Throw e w1 \<Rightarrow> Some ([i], Throw e w1)
         | Normal w1 \<Rightarrow>
             Option.bind (for_of m array (Suc i) w1) (\<lambda>(called, c). Some (i # called, c)))
      else Some ([], Normal w))"

definition CancellableRegistor_cancel ::
  "(nat \<Rightarrow> ('e, 'u world) Resource) \<Rightarrow> 'u world \<Rightarrow>
   (nat list \<times> ('e thrown, 'u world) completion) option" where
  "CancellableRegistor_cancel objects w =
     for_of cancel (\<lambda>w. map objects (resources (registor w))) 0 w"

definition CancellableRegistor_finish ::
  "(nat \<Rightarrow> ('e, 'u world) Resource) \<Rightarrow> 'u world \<Rightarrow>
   (nat list \<times> ('e thrown, 'u world) completion) option" where
  "CancellableRegistor_finish objects w =
     for_of finish (\<lambda>w. map objects (resources (registor w))) 0 w"

section \<open>TranslateFactory, MoveFactory, RotateFactory, ScaleFactory (unnamed/part_002)\<close>

text \<open>
  A JavaScript number is a finite double, an infinity or NaN. Finite doubles are
  modelled by their real values (the two zeros are one value: \<open>-0 === 0\<close>); comparison
  and strict equality are exact on them, and both are false when an operand is NaN.
  Arithmetic on doubles rounds: it is not modelled, and the addition used by
  \<open>manhattanLength\<close> is a parameter.
\<close>

datatype number = Num real | NaN | Infinity | NegInfinity

fun js_lt :: "number \<Rightarrow> number \<Rightarrow> bool" where
  "js_lt (Num a) (Num b) = (a < b)"
| "js_lt (Num a) Infinity = True"
| "js_lt NegInfinity (Num b) = True"
| "js_lt NegInfinity Infinity = True"
| "js_lt _ _ = False"

fun js_strict_eq :: "number \<Rightarrow> number \<Rightarrow> bool" where
  "js_strict_eq NaN _ = False"
| "js_strict_eq _ NaN = False"
| "js_strict_eq a b = (a = b)"

fun Math_abs :: "number \<Rightarrow> number" where
  "Math_abs (Num a) = Num \<bar>a\<bar>"
| "Math_abs NaN = NaN"
| "Math_abs Infinity = Infinity"
| "Math_abs NegInfinity = Infinity"

record Vector3 =
  v_x :: number
  v_y :: number
  v_z :: number

record Quaternion =
  q_x :: number
  q_y :: number
  q_z :: number
  q_w :: number

text \<open>three.js: \<open>Vector3.manhattanLength\<close> and \<open>Vector3.equals\<close>.\<close>

definition manhattanLength :: "(number \<Rightarrow> number \<Rightarrow> number) \<Rightarrow> Vector3 \<Rightarrow> number" where
  "manhattanLength fadd v = fadd (fadd (Math_abs (v_x v)) (Math_abs (v_y v))) (Math_abs (v_z v))"

definition Vector3_equals :: "Vector3 \<Rightarrow> Vector3 \<Rightarrow> bool" where
  "Vector3_equals a b =
     (js_strict_eq (v_x b) (v_x a) \<and> js_strict_eq (v_y b) (v_y a) \<and> js_strict_eq (v_z b) (v_z a))"

text \<open>The literal \<open>10e-6\<close>: the double nearest to 0.00001.\<close>

definition lit_10e_6 :: number where
  "lit_10e_6 = Num (5902958103587057 / 2 ^ 69)"

definition identity :: Vector3 where
  "identity = \<lparr>v_x = Num 1, v_y = Num 1, v_z = Num 1\<rparr>"

datatype factory_error = NoOpError | ValidationError

text \<open>
  The parameters of the three subclasses, and the calls into the c3d backend that their
  \<open>transform\<close> getters make, in order, with the \<open>c3d.TransformValues\<close> they build.
\<close>

datatype translate_params =
    MoveFactory Vector3 Vector3
  | RotateFactory Vector3 Vector3 number
  | ScaleFactory Vector3 Vector3

datatype c3d_call =
    New_TransformValues | New_Vector3D | TransformValues_Move
  | New_Matrix3D | New_CartPoint3D | New_Axis3D | Matrix3D_Rotate

datatype TransformValues =
    Moved Vector3
  | Rotated Vector3 Vector3 number
  | Scaled number number number Vector3

text \<open>
  \<open>get transform()\<close>: \<open>MoveFactory (move, pivot)\<close>, \<open>RotateFactory (pivot, axis, angle)\<close>,
  \<open>ScaleFactory (scale, pivot)\<close>. The result is the list of backend calls made and either
  the error thrown or the value returned.
\<close>

fun transform ::
  "(number \<Rightarrow> number \<Rightarrow> number) \<Rightarrow> translate_params \<Rightarrow>
   c3d_call list \<times> (factory_error + TransformValues)" where
  "transform fadd (MoveFactory move pivot) =
     (if js_lt (manhattanLength fadd move) lit_10e_6 then ([], Inl NoOpError)
      else ([New_TransformValues, New_Vector3D, TransformValues_Move], Inr (Moved move)))"
| "transform fadd (RotateFactory point axis angle) =
     (if js_strict_eq angle (Num 0) then ([], Inl NoOpError)
      else ([New_Matrix3D, New_CartPoint3D, New_Vector3D, New_Axis3D, Matrix3D_Rotate,
             New_TransformValues], Inr (Rotated point axis angle)))"
| "transform fadd (ScaleFactory scale pivot) =
     (if Vector3_equals scale identity then ([], Inl NoOpError)
      else ([New_CartPoint3D, New_TransformValues],
            Inr (Scaled (v_x scale) (v_y scale) (v_z scale) pivot)))"

text \<open>
  A \<open>visual.Item\<close> is a three.js object: the fields the factory writes are its position,
  quaternion and scale; everything else it carries is the record's extension.
\<close>

record Item =
  item_position :: Vector3
  item_quaternion :: Quaternion
  item_scale :: Vector3

text \<open>
  The field \<open>_items\<close> is declared without an initialiser (\<open>_items!: visual.Item[]\<close>): it
  is undefined (\<open>None\<close>) until the \<open>items\<close> setter has run. The getter \<open>items\<close> returns
  the field as it is.
\<close>

record 'z TranslateFactory =
  items :: "'z Item_scheme list option"
  params :: translate_params

text \<open>
  \<open>set items(items)\<close> stores the items. (It also looks each item up in the database
  and stores the models, which only \<open>calculate\<close> reads.)
\<close>

definition set_items :: "'z Item_scheme list \<Rightarrow> 'z TranslateFactory \<Rightarrow> 'z TranslateFactory" where
  "set_items its f = f\<lparr>items := Some its\<rparr>"

text \<open>
  The three.js and c3d operations \<open>doUpdate\<close> uses, as parameters: the addition of
  doubles, \<open>transform.GetMatrix()\<close> followed by \<open>Matrix4.decompose\<close>, and the vector and
  quaternion operations of \<open>RotateFactory.doUpdate\<close>.
\<close>

record three =
  number_add :: "number \<Rightarrow> number \<Rightarrow> number"
  Matrix4_decompose :: "TransformValues \<Rightarrow> Vector3 \<times> Quaternion \<times> Vector3"
  Vector3_sub :: "Vector3 \<Rightarrow> Vector3 \<Rightarrow> Vector3"
  Vector3_add :: "Vector3 \<Rightarrow> Vector3 \<Rightarrow> Vector3"
  Vector3_applyAxisAngle :: "Vector3 \<Rightarrow> Vector3 \<Rightarrow> number \<Rightarrow> Vector3"
  Quaternion_setFromAxisAngle :: "Vector3 \<Rightarrow> number \<Rightarrow> Quaternion"

definition origin :: Vector3 where
  "origin = \<lparr>v_x = Num 0, v_y = Num 0, v_z = Num 0\<rparr>"

definition identity_quaternion :: Quaternion where
  "identity_quaternion = \<lparr>q_x = Num 0, q_y = Num 0, q_z = Num 0, q_w = Num 1\<rparr>"

text \<open>
  \<open>doUpdate\<close>, the callback it hands to \<open>db.optimization\<close>. \<open>TranslateFactory.doUpdate\<close>
  reads \<open>matrix\<close> first (which reads \<open>transform\<close> and may throw), then decomposes the matrix
  into every item. \<open>RotateFactory.doUpdate\<close> overrides it: nothing when the angle is 0,
  else each item's position and quaternion are set from the pivot, axis and angle.
  Iterating items that are undefined throws a TypeError.
\<close>

fun doUpdate ::
  "three \<Rightarrow> 'z TranslateFactory \<Rightarrow> factory_error thrown + 'z TranslateFactory" where
  "doUpdate t f =
     (case params f of
        RotateFactory point axis angle \<Rightarrow>
          if js_strict_eq angle (Num 0) then Inr f
          else
            (case items f of
               None \<Rightarrow> Inl TypeError
             | Some its \<Rightarrow>
                 Inr (f\<lparr>items := Some
                   (map (\<lambda>item. item
                          \<lparr>item_position :=
                             Vector3_add t
                               (Vector3_applyAxisAngle t (Vector3_sub t origin point) axis angle)
                               point,
                           item_quaternion := Quaternion_setFromAxisAngle t axis angle\<rparr>)
                        its)\<rparr>))
      | _ \<Rightarrow>
          (case snd (transform (number_add t) (params f)) of
             Inl e \<Rightarrow> Inl (Raised e)
           | Inr tv \<Rightarrow>
               (case Matrix4_decompose t tv of
                  (p, q, s) \<Rightarrow>
                    (case items f of
                       None \<Rightarrow> Inl TypeError
                     | Some its \<Rightarrow>
                         Inr (f\<lparr>items := Some
                           (map (\<lambda>item. item\<lparr>item_position := p, item_quaternion := q,
                                              item_scale := s\<rparr>)
                                its)\<rparr>)))))"

text \<open>
  \<open>doCancel\<close>: every item back to position 0, the identity quaternion and scale 1.
  The loop \<open>for (const item of this.items)\<close> throws a TypeError when the items are
  undefined.
\<close>

definition doCancel :: "'z TranslateFactory \<Rightarrow> factory_error thrown + 'z TranslateFactory" where
  "doCancel f =
     (case items f of
        None \<Rightarrow> Inl TypeError
      | Some its \<Rightarrow>
          Inr (f\<lparr>items := Some
            (map (\<lambda>item. item\<lparr>item_position := origin,
                               item_quaternion := identity_quaternion,
                               item_scale := identity\<rparr>)
                 its)\<rparr>))"

text \<open>
  A run of updates: the command sets the parameters, then calls \<open>doUpdate\<close>; an update
  that throws leaves the items as they were.
\<close>

fun updates :: "three \<Rightarrow> translate_params list \<Rightarrow> 'z TranslateFactory \<Rightarrow> 'z TranslateFactory" where
  "updates t [] f = f"
| "updates t (ps # rest) f =
     (case doUpdate t (f\<lparr>params := ps\<rparr>) of
        Inl e \<Rightarrow> updates t rest (f\<lparr>params := ps\<rparr>)
      | Inr f1 \<Rightarrow> updates t rest f1)"

definition is_reset :: "'z Item_scheme \<Rightarrow> bool" where
  "is_reset item =
     (item_position item = origin \<and> item_quaternion item = identity_quaternion \<and>
      item_scale item = identity)"

section \<open>RecomputeEngine: the update protocol of GeometryFactory (spec 4.1)\<close>

text \<open>
  Modelled from the spec: \<open>GeometryFactory.update\<close>, the engine the factories extend, is
  not among the source files; only its test (the FakeFactory of unnamed/part_000) is.
  The definitions of this section follow section 4.1 of the specification, steps 1 to 5,
  and its data model (section 3).

  The engine reacts to events: the command sets a parameter, the command calls
  \<open>update()\<close>, the backend call in flight resolves, or it rejects. Beside the fields of
  the data model the state records what the properties below observe: how many backend calls are
  issued and not settled (\<open>inFlight\<close>), the parameters each backend call read when it was
  dispatched (\<open>callLog\<close>, oldest first), and one promise per \<open>update()\<close> call
  (\<open>promises\<close>, oldest first).
\<close>

datatype phase = Idle | Running | RunningWithPending | Reverting

text \<open>
  Modelled from the spec: a promise returned by \<open>update()\<close> waits for the engine to come
  back to Idle (step 1: the call and every chained follow-up), or for the backend call
  with a given number (step 2: the one follow-up of the call in flight), or is resolved.
\<close>

datatype promise = AwaitIdle | AwaitCall nat | Resolved

text \<open>
  Modelled from the spec: the engine's state (section 3: \<open>parameters\<close>, \<open>trackedKeys\<close>,
  \<open>lastGood\<close>, \<open>callCount\<close>, \<open>phase\<close>), with the three observation fields.
\<close>

record ('k, 'v) engine =
  parameters :: "'k \<rightharpoonup> 'v"
  trackedKeys :: "'k list"
  lastGood :: "('k \<rightharpoonup> 'v) option"
  callCount :: nat
  phase :: phase
  inFlight :: nat
  callLog :: "('k \<rightharpoonup> 'v) list"
  promises :: "promise list"

text \<open>
  Modelled from the spec: what happens to an engine: the owning command mutates a
  parameter between calls (section 3), it calls \<open>update()\<close>, or the backend call in
  flight resolves or rejects.
\<close>

datatype ('k, 'v) event = SetParameter 'k 'v | Update | Resolve | Reject

text \<open>
  Modelled from the spec: a resynchronization call that fails is fatal (section 7). A
  backend call cannot settle when none is in flight: such an event is refused.
\<close>

datatype engine_error = ResyncFailed | NoCallInFlight

text \<open>Modelled from the spec: a new engine is Idle, with no snapshot and no call issued.\<close>

definition new_engine :: "'k list \<Rightarrow> ('k \<rightharpoonup> 'v) \<Rightarrow> ('k, 'v) engine" where
  "new_engine keys ps =
     \<lparr>parameters = ps, trackedKeys = keys, lastGood = None, callCount = 0, phase = Idle,
      inFlight = 0, callLog = [], promises = []\<rparr>"

text \<open>
  Modelled from the spec: issuing a backend call through \<open>doUpdate\<close> reads the current
  parameters and increments \<open>callCount\<close>; a call that settles is no longer in flight, and
  the promises that wait for it resolve.
\<close>

definition dispatch :: "('k, 'v) engine \<Rightarrow> ('k, 'v) engine" where
  "dispatch e =
     e\<lparr>callCount := callCount e + 1, inFlight := inFlight e + 1,
       callLog := callLog e @ [parameters e]\<rparr>"

definition settled :: "('k, 'v) engine \<Rightarrow> ('k, 'v) engine" where
  "settled e = e\<lparr>inFlight := inFlight e - 1\<rparr>"

definition resolve_call :: "nat \<Rightarrow> promise list \<Rightarrow> promise list" where
  "resolve_call n ps = map (\<lambda>p. if p = AwaitCall n then Resolved else p) ps"

definition to_Idle :: "('k, 'v) engine \<Rightarrow> ('k, 'v) engine" where
  "to_Idle e = e\<lparr>phase := Idle, promises := map (\<lambda>p. Resolved) (promises e)\<rparr>"

text \<open>
  Modelled from the spec: the snapshot taken after a successful call (step 3) and the
  restore after a failed one (step 4), a no-op when no snapshot exists.
\<close>

definition snapshot :: "('k, 'v) engine \<Rightarrow> ('k, 'v) engine" where
  "snapshot e = e\<lparr>lastGood := Some (parameters e |` set (trackedKeys e))\<rparr>"

definition revert :: "('k, 'v) engine \<Rightarrow> ('k, 'v) engine" where
  "revert e =
     (case lastGood e of
        None \<Rightarrow> e
      | Some g \<Rightarrow>
          e\<lparr>parameters := (\<lambda>k. if k \<in> set (trackedKeys e) then g k else parameters e k)\<rparr>)"

text \<open>
  Modelled from the spec: \<open>update()\<close>, steps 1 and 2. Only an Idle engine dispatches
  (step 5). The spec gives no rule for an \<open>update()\<close> that arrives while the engine is
  Reverting; by step 5 it cannot dispatch, and here it is absorbed, its promise waiting
  for the resynchronization call.
\<close>

definition update :: "('k, 'v) engine \<Rightarrow> ('k, 'v) engine" where
  "update e =
     (case phase e of
        Idle \<Rightarrow> (dispatch (e\<lparr>phase := Running\<rparr>))\<lparr>promises := promises e @ [AwaitIdle]\<rparr>
      | Running \<Rightarrow>
          e\<lparr>phase := RunningWithPending,
            promises := promises e @ [AwaitCall (callCount e + 1)]\<rparr>
      | RunningWithPending \<Rightarrow> e\<lparr>promises := promises e @ [AwaitCall (callCount e + 1)]\<rparr>
      | Reverting \<Rightarrow> e\<lparr>promises := promises e @ [AwaitCall (callCount e)]\<rparr>)"

text \<open>
  Modelled from the spec: the call in flight succeeds (step 3). A resynchronization call
  that succeeds takes no snapshot and brings the engine back to Idle (step 4).
\<close>

definition resolved :: "('k, 'v) engine \<Rightarrow> engine_error + ('k, 'v) engine" where
  "resolved e =
     (case phase e of
        Idle \<Rightarrow> Inl NoCallInFlight
      | Running \<Rightarrow> Inr (to_Idle (snapshot (settled e)))
      | RunningWithPending \<Rightarrow>
          Inr (dispatch
                 ((snapshot (settled e))
                    \<lparr>phase := Running,
                     promises := resolve_call (callCount e) (promises e)\<rparr>))
      | Reverting \<Rightarrow> Inr (to_Idle (settled e)))"

text \<open>
  Modelled from the spec: the call in flight fails (step 4): restore the tracked
  parameters, issue the one silent resynchronization call; a pending request is served
  by that call (Scenario C). A resynchronization call that fails is fatal (section 7).
\<close>

definition rejected :: "('k, 'v) engine \<Rightarrow> engine_error + ('k, 'v) engine" where
  "rejected e =
     (case phase e of
        Idle \<Rightarrow> Inl NoCallInFlight
      | Reverting \<Rightarrow> Inl ResyncFailed
      | _ \<Rightarrow> Inr (dispatch ((revert (settled e))\<lparr>phase := Reverting\<rparr>)))"

text \<open>
  Modelled from the spec: one event, and a sequence of events from the left; a fatal or
  refused event ends the run with its error.
\<close>

fun step :: "('k, 'v) event \<Rightarrow> ('k, 'v) engine \<Rightarrow> engine_error + ('k, 'v) engine" where
  "step (SetParameter k v) e = Inr (e\<lparr>parameters := (parameters e)(k \<mapsto> v)\<rparr>)"
| "step Update e = Inr (update e)"
| "step Resolve e = resolved e"
| "step Reject e = rejected e"

fun run :: "('k, 'v) event list \<Rightarrow> ('k, 'v) engine \<Rightarrow> engine_error + ('k, 'v) engine" where
  "run [] e = Inr e"
| "run (ev # evs) e = (case step ev e of Inl err \<Rightarrow> Inl err | Inr e1 \<Rightarrow> run evs e1)"

text \<open>
  Modelled from the spec: non-overlapping \<open>update()\<close> calls, each awaited before the next
  (section 8). The list gives, per call, whether its backend call resolves; a call that
  rejects is followed by its resynchronization call, which resolves.
\<close>

fun serial :: "bool list \<Rightarrow> ('k, 'v) event list" where
  "serial [] = []"
| "serial (ok # oks) = (if ok then [Update, Resolve] else [Update, Reject, Resolve]) @ serial oks"

text \<open>
  Modelled from the spec: at most one recomputation is in flight (section 5), and one is
  in flight exactly while the engine is not Idle.
\<close>

definition serialized :: "('k, 'v) engine \<Rightarrow> bool" where
  "serialized e = (inFlight e = (if phase e = Idle then 0 else 1))"

section \<open>Properties of GeometryIdEncoder\<close>

lemma js_shl_1_16: "js_shl 1 16 = 65536"
  by (simp add: js_shl_def ToInt32_def)

lemma js_shl_1_15: "js_shl 1 15 = 32768"
  by (simp add: js_shl_def ToInt32_def)

text \<open>
  C9. The round trip \<open>decode (encode type parentId index)\<close> is claimed to give back
  \<open>parentId\<close> and \<open>index\<close> for every accepted input. At the accepted input
  (edge, 1, 4096) the mask \<open>0xef\<close> drops bit 12 of the index: the id is 65536 and
  decodes to index 0.
\<close>

theorem encode_decode_drops_index_bit:
  "encode Edge 1 4096 = Inr 65536 \<and>
   decode 65536 = \<lparr>dec_parentId = 1, dec_type = 0, dec_index = 0\<rparr>"
  by (simp add: encode_def decode_def js_shl_def js_sar_def js_and_def js_or_def ToInt32_def)

text \<open>
  The guards of \<open>encode\<close> are the two comparisons: it throws exactly when
  \<open>parentId > 65536\<close> or \<open>index > 32768\<close>.
\<close>

lemma encode_precondition:
  "(encode ty parentId index = Inl PreconditionFailure) = (parentId > 65536 \<or> index > 32768) \<and>
   (\<exists>ident. encode ty parentId index = Inr ident) = (parentId \<le> 65536 \<and> index \<le> 32768)"
  by (auto simp: encode_def js_shl_1_16 js_shl_1_15 Let_def)

lemma bit_small: "0 \<le> (k::int) \<Longrightarrow> k < 2 ^ m \<Longrightarrow> m \<le> n \<Longrightarrow> \<not> bit k n"
proof -
  assume a: "0 \<le> k" "k < 2 ^ m" "m \<le> n"
  have "(2::int) ^ m \<le> 2 ^ n"
    using a(3) by (intro power_increasing) auto
  with a(2) have "k < 2 ^ n" by linarith
  with a(1) show ?thesis
    by (simp add: bit_iff_odd)
qed

lemma bit_239: "bit (239::int) n = (n < 8 \<and> n \<noteq> 4)"
proof (cases "n < 8")
  case True
  then consider "n = 0" | "n = 1" | "n = 2" | "n = 3" | "n = 4" | "n = 5" | "n = 6" | "n = 7"
    by linarith
  then show ?thesis by cases (simp_all add: bit_iff_odd)
next
  case False
  then show ?thesis using bit_small[of 239 8 n] by simp
qed

lemma bit_128: "bit (128::int) n = (n = 7)"
proof -
  have e: "(128::int) = 2 ^ 7" by simp
  show ?thesis unfolding e bit_exp_iff by simp
qed

lemma bit_255: "bit (255::int) n = (n < 8)"
proof -
  have e: "(255::int) = mask 8" by (simp add: mask_eq_exp_minus_1)
  show ?thesis unfolding e by (simp add: bit_mask_iff)
qed

lemma bit_ffff: "bit (65535::int) n = (n < 16)"
proof -
  have e: "(65535::int) = mask 16" by (simp add: mask_eq_exp_minus_1)
  show ?thesis unfolding e by (simp add: bit_mask_iff)
qed

lemma bit_7fff: "bit (32767::int) n = (n < 15)"
proof -
  have e: "(32767::int) = mask 15" by (simp add: mask_eq_exp_minus_1)
  show ?thesis unfolding e by (simp add: bit_mask_iff)
qed

lemma js_and_int: "js_and a b = signed_take_bit 31 (a AND b)"
  by (simp add: js_and_def ToInt32_def sint_sbintrunc' flip: of_int_and_eq)

lemma js_or_int: "js_or a b = signed_take_bit 31 (a OR b)"
  by (simp add: js_or_def ToInt32_def sint_sbintrunc' flip: of_int_or_eq)

lemma js_shl_int: "0 \<le> n \<Longrightarrow> n < 32 \<Longrightarrow> js_shl a n = signed_take_bit 31 (push_bit (nat n) a)"
  by (simp add: js_shl_def ToInt32_def sint_sbintrunc' flip: of_int_push_bit)

lemma js_sar_int: "0 \<le> n \<Longrightarrow> n < 32 \<Longrightarrow> js_sar a n = drop_bit (nat n) (signed_take_bit 31 a)"
  by (simp add: js_sar_def ToInt32_def sint_signed_drop_bit_eq sint_sbintrunc')


text \<open>
  Where the round trip does hold: for a parent id and an index in \<open>0 .. 32767\<close> whose
  index has bit 12 clear. (A parent id from 32768 on makes the id negative, and the
  arithmetic shift of \<open>decode\<close> then returns a negative parent id.)
\<close>

lemma encode_decode_round_trip:
  assumes "0 \<le> parentId" "parentId < 32768" "0 \<le> index" "index < 32768" "\<not> bit index 12"
  shows "\<exists>ident. encode ty parentId index = Inr ident \<and>
           decode ident = \<lparr>dec_parentId = parentId,
                            dec_type = (if ty = Edge then 0 else 1),
                            dec_index = index\<rparr>"
proof -
  define c :: int where "c = (if ty = Edge then 0 else 128)"
  define d :: int where "d = c OR (drop_bit 8 index AND 239)"
  define lo :: int where "lo = index AND 255"
  define ident :: int where "ident = push_bit 16 parentId OR push_bit 8 d OR lo"
  have bp: "\<not> bit parentId n" if "15 \<le> n" for n
    using bit_small[of parentId 15 n] assms that by simp
  have bi: "\<not> bit index n" if "15 \<le> n" for n
    using bit_small[of index 15 n] assms that by simp
  have bi': "n < 15" if "bit index n" for n
    using bi[of n] that by (cases "n < 15") auto
  have bc: "bit c n = (ty \<noteq> Edge \<and> n = 7)" for n
    by (simp add: c_def bit_128)
  have bd: "bit d n = ((ty \<noteq> Edge \<and> n = 7) \<or> (bit index (n + 8) \<and> n < 8 \<and> n \<noteq> 4))" for n
    by (auto simp: d_def bit_or_iff bit_and_iff bit_drop_bit_eq bc bit_239 add.commute)
  have blo: "bit lo n = (bit index n \<and> n < 8)" for n
    by (simp add: lo_def bit_and_iff bit_255)
  have bident: "bit ident n =
      ((16 \<le> n \<and> bit parentId (n - 16)) \<or>
       (8 \<le> n \<and> ((ty \<noteq> Edge \<and> n = 15) \<or> (bit index n \<and> n < 16 \<and> n \<noteq> 12))) \<or>
       (bit index n \<and> n < 8))" for n
    by (auto simp: ident_def bit_or_iff bit_push_bit_iff bd blo)
  have stb: "signed_take_bit 31 k = k" if "\<And>n. 31 \<le> n \<Longrightarrow> \<not> bit k n" for k :: int
    using that by (intro bit_eqI) (auto simp: bit_signed_take_bit_iff min_def)
  have parent_shift: "js_shl parentId 16 = push_bit 16 parentId"
    using bp by (simp add: js_shl_int stb bit_push_bit_iff)
  have c_shift: "js_shl (if ty = Edge then 0 else 1) 7 = c"
    by (simp add: js_shl_def ToInt32_def c_def)
  have sar8: "js_sar index 8 = drop_bit 8 index"
    using bi by (simp add: js_sar_int stb)
  have sar0: "js_sar index 0 = index"
    using bi by (simp add: js_sar_int stb)
  have d_eq: "js_or c (js_and (drop_bit 8 index) 239) = d"
  proof -
    have "js_and (drop_bit 8 index) 239 = drop_bit 8 index AND 239"
      by (simp add: js_and_int stb bit_and_iff bit_239)
    then show ?thesis
      using bd by (simp add: js_or_int stb flip: d_def)
  qed
  have lo_eq: "js_and index 255 = lo"
    using blo by (simp add: js_and_int stb flip: lo_def)
  have d_shift: "js_shl d 8 = push_bit 8 d"
  proof -
    have "\<not> bit (push_bit 8 d) n" if "31 \<le> n" for n
      using that by (auto simp: bit_push_bit_iff bd)
    then show ?thesis by (simp add: js_shl_int stb)
  qed
  have hi: "\<not> bit ident n" if "31 \<le> n" for n
    using that bp[of "n - 16"] bi[of n] by (auto simp: bident)
  have ident_eq: "js_or (js_or (push_bit 16 parentId) (push_bit 8 d)) lo = ident"
  proof -
    have "\<not> bit (push_bit 16 parentId OR push_bit 8 d) n" if "31 \<le> n" for n
      using that bp[of "n - 16"] by (auto simp: bit_or_iff bit_push_bit_iff bd)
    then have "js_or (push_bit 16 parentId) (push_bit 8 d) = push_bit 16 parentId OR push_bit 8 d"
      by (simp add: js_or_int stb)
    moreover have "(push_bit 16 parentId OR push_bit 8 d) OR lo = ident"
      by (simp only: ident_def or.assoc)
    moreover have "signed_take_bit 31 ident = ident"
      by (rule stb) (rule hi)
    ultimately show ?thesis
      by (simp only: js_or_int)
  qed
  have enc: "encode ty parentId index = Inr ident"
    using assms(2,4)
    by (simp add: encode_def js_shl_1_16 js_shl_1_15 Let_def parent_shift c_shift sar8 sar0
        d_eq lo_eq d_shift ident_eq del: push_bit_eq_mult)
  have dec_parent: "js_sar ident 16 = parentId"
  proof -
    have "drop_bit 16 ident = parentId"
      using bi by (intro bit_eqI) (auto simp: bit_drop_bit_eq bident add.commute)
    then show ?thesis using hi by (simp add: js_sar_int stb)
  qed
  define c1 :: int where "c1 = ident AND 65535"
  have bc1: "bit c1 n = (bit ident n \<and> n < 16)" for n
    by (simp add: c1_def bit_and_iff bit_ffff)
  have c1_eq: "js_and ident 65535 = c1"
    using bc1 by (simp add: js_and_int stb flip: c1_def)
  have dec_ty: "js_sar c1 15 = (if ty = Edge then 0 else 1)"
  proof -
    have "drop_bit 15 c1 = (if ty = Edge then 0 else 1)"
      using bi[of 15] by (intro bit_eqI) (auto simp: bit_drop_bit_eq bc1 bident bit_1_iff)
    then show ?thesis using bc1 by (simp add: js_sar_int stb)
  qed
  have dec_idx: "js_and c1 32767 = index"
  proof -
    have "c1 AND 32767 = index"
      using assms(5)
      by (intro bit_eqI) (auto simp: bit_and_iff bit_7fff bc1 bident dest: bi')
    moreover have "\<not> bit (c1 AND 32767) n" if "31 \<le> n" for n
      using that by (simp add: bit_and_iff bit_7fff)
    ultimately show ?thesis by (simp add: js_and_int stb)
  qed
  have "decode ident = \<lparr>dec_parentId = parentId,
                            dec_type = (if ty = Edge then 0 else 1),
                            dec_index = index\<rparr>"
    by (simp add: decode_def Let_def dec_parent c1_eq dec_ty dec_idx)
  with enc show ?thesis by blast
qed

section \<open>Properties of SnapPresentation\<close>

lemma collect_names:
  "snd (collect xs (hs, ns)) = ns @ List.map_filter (\<lambda>i. name (snap i)) xs"
  by (induction xs arbitrary: hs ns) (auto simp: List.map_filter_simps split: option.splits)

lemma set_map_filter_names:
  "set (List.map_filter (\<lambda>i. name (snap i)) xs) = {n. \<exists>i \<in> set xs. name (snap i) = Some n}"
  by (induction xs) (auto simp: List.map_filter_simps split: option.splits)

lemma Set_spread_set: "set (Set_spread seen xs) = set seen \<union> set xs"
  by (induction seen xs rule: Set_spread.induct) auto

lemma Set_spread_distinct: "distinct seen \<Longrightarrow> distinct (Set_spread seen xs)"
  by (induction seen xs rule: Set_spread.induct) auto

text \<open>
  C10. A SnapPresentation built from an empty \<open>intersections\<close> list has no names, no
  helpers and no info. Built from a non-empty list, its info is the first intersection
  (extended with the construction plane and the camera's position and orientation), and
  its names are the defined snap names of all the intersections, without duplicates, in
  ascending order.
\<close>

theorem SnapPresentation_names_info:
  "let p = new_SnapPresentation nearby0 intersections cplane camera presenter activatedHelpers in
     (intersections = [] \<longrightarrow> names p = [] \<and> helpers p = [] \<and> info p = None) \<and>
     (\<forall>first rest. intersections = first # rest \<longrightarrow>
        info p = Some (SnapResult.extend first
                   \<lparr>constructionPlane = cplane, cameraPosition = cam_position camera,
                    cameraOrientation = cam_quaternion camera\<rparr>) \<and>
        sorted (names p) \<and> distinct (names p) \<and>
        set (names p) = {n. \<exists>i \<in> set intersections. name (snap i) = Some n})"
proof -
  have empty: "names (new_SnapPresentation nearby0 [] cplane camera presenter activatedHelpers) = []"
    "helpers (new_SnapPresentation nearby0 [] cplane camera presenter activatedHelpers) = []"
    "info (new_SnapPresentation nearby0 [] cplane camera presenter activatedHelpers) = None"
    by (simp_all add: new_SnapPresentation_def)
  have nonempty: "info p = Some (SnapResult.extend first
                   \<lparr>constructionPlane = cplane, cameraPosition = cam_position camera,
                    cameraOrientation = cam_quaternion camera\<rparr>) \<and>
        sorted (names p) \<and> distinct (names p) \<and>
        set (names p) = {n. \<exists>i \<in> set (first # rest). name (snap i) = Some n}"
    if "p = new_SnapPresentation nearby0 (first # rest) cplane camera presenter activatedHelpers"
    for p first rest
  proof -
    obtain hs ns where c: "collect (first # rest) (activatedHelpers @ [snapIndicatorFor presenter first], []) = (hs, ns)"
      by (cases "collect (first # rest) (activatedHelpers @ [snapIndicatorFor presenter first], [])")
    from collect_names[of "first # rest" "activatedHelpers @ [snapIndicatorFor presenter first]" "[]"] c
    have ns: "ns = List.map_filter (\<lambda>i. name (snap i)) (first # rest)" by simp
    have p: "names p = sort (Set_spread [] ns)"
      "info p = Some (SnapResult.extend first
                   \<lparr>constructionPlane = cplane, cameraPosition = cam_position camera,
                    cameraOrientation = cam_quaternion camera\<rparr>)"
      using c that by (simp_all add: new_SnapPresentation_def Let_def del: collect.simps)
    have "set (names p) = {n. \<exists>i \<in> set (first # rest). name (snap i) = Some n}"
      unfolding p ns by (simp only: set_sort Set_spread_set set_map_filter_names) simp
    moreover have "distinct (names p)" unfolding p by (simp add: Set_spread_distinct)
    moreover have "sorted (names p)" unfolding p by simp
    ultimately show ?thesis using p by blast
  qed
  show ?thesis
    unfolding Let_def using empty nonempty by blast
qed


theorem SnapPresentation_names_info_witness:
  "(let p = new_SnapPresentation [10::nat]
              [\<lparr>snap = \<lparr>helper = Some (7::nat), name = Some [66]\<rparr>, orientation = 0::nat,
                position = 1::nat, cursorPosition = 2, cursorOrientation = 3\<rparr>,
               \<lparr>snap = \<lparr>helper = None, name = Some [65]\<rparr>, orientation = 0,
                position = 1, cursorPosition = 2, cursorOrientation = 3\<rparr>,
               \<lparr>snap = \<lparr>helper = None, name = None\<rparr>, orientation = 0,
                position = 1, cursorPosition = 2, cursorOrientation = 3\<rparr>,
               \<lparr>snap = \<lparr>helper = Some 8, name = Some [66]\<rparr>, orientation = 0,
                position = 1, cursorPosition = 2, cursorOrientation = 3\<rparr>]
              (0::nat) \<lparr>cam_position = 5, cam_quaternion = 6\<rparr>
              \<lparr>nearbyIndicatorFor = Suc, snapIndicatorFor = (\<lambda>_. 100)\<rparr> [50]
    in sorted (names p) \<and> distinct (names p) \<and> set (names p) = {[65], [66]} \<and>
       names p = [[65], [66]] \<and>
       info p = Some \<lparr>snap = \<lparr>helper = Some 7, name = Some [66]\<rparr>, orientation = 0,
                position = 1, cursorPosition = 2, cursorOrientation = 3,
                constructionPlane = 0, cameraPosition = 5, cameraOrientation = 6\<rparr>) \<and>
   (let q = new_SnapPresentation [10::nat] ([] :: (nat, nat, nat) SnapResult list)
              (0::nat) \<lparr>cam_position = 5::nat, cam_quaternion = 6::nat\<rparr>
              \<lparr>nearbyIndicatorFor = Suc, snapIndicatorFor = (\<lambda>_. 100)\<rparr> [50]
    in names q = [] \<and> helpers q = [] \<and> info q = None)"
  using SnapPresentation_names_info
      [of "[10::nat]"
          "[\<lparr>snap = \<lparr>helper = Some (7::nat), name = Some [66]\<rparr>, orientation = 0::nat,
                position = 1::nat, cursorPosition = 2, cursorOrientation = 3\<rparr>,
               \<lparr>snap = \<lparr>helper = None, name = Some [65]\<rparr>, orientation = 0,
                position = 1, cursorPosition = 2, cursorOrientation = 3\<rparr>,
               \<lparr>snap = \<lparr>helper = None, name = None\<rparr>, orientation = 0,
                position = 1, cursorPosition = 2, cursorOrientation = 3\<rparr>,
               \<lparr>snap = \<lparr>helper = Some 8, name = Some [66]\<rparr>, orientation = 0,
                position = 1, cursorPosition = 2, cursorOrientation = 3\<rparr>]"
          "0::nat" "\<lparr>cam_position = 5, cam_quaternion = 6\<rparr>"
          "\<lparr>nearbyIndicatorFor = Suc, snapIndicatorFor = (\<lambda>_. 100)\<rparr>" "[50]"]
    SnapPresentation_names_info
      [of "[10::nat]" "[] :: (nat, nat, nat) SnapResult list"
          "0::nat" "\<lparr>cam_position = 5::nat, cam_quaternion = 6::nat\<rparr>"
          "\<lparr>nearbyIndicatorFor = Suc, snapIndicatorFor = (\<lambda>_. 100)\<rparr>" "[50]"]
  by (simp add: new_SnapPresentation_def Let_def SnapResult.extend_def insort_key.simps)

section \<open>Properties of CancellableRegistor and CancellablePromise\<close>

lemma upt_from: "[i..<i + Suc n] = i # [Suc i..<Suc i + n]"
  by (simp del: upt_Suc add: upt_conv_Cons)

lemma bind_pair_id: "Option.bind x (\<lambda>(called, c). Some ([] @ called, c)) = x"
  by (cases x) auto

lemma for_of_run:
  assumes "ws 0 = w"
    and "\<And>k. k < j \<Longrightarrow> i + k < length (array (ws k)) \<and>
                 m (array (ws k) ! (i + k)) (ws k) = Normal (ws (Suc k))"
  shows "for_of m array i w =
     Option.bind (for_of m array (i + j) (ws j)) (\<lambda>(called, c). Some ([i..<i + j] @ called, c))"
  using assms
proof (induction j arbitrary: i w ws)
  case 0
  then show ?case by (simp add: bind_pair_id)
next
  case (Suc j)
  from Suc.prems(2)[of 0] Suc.prems(1)
  have first: "i < length (array w)" "m (array w ! i) w = Normal (ws 1)"
    by simp_all
  have rest: "for_of m array (Suc i) (ws 1) =
     Option.bind (for_of m array (Suc i + j) ((ws \<circ> Suc) j))
       (\<lambda>(called, c). Some ([Suc i..<Suc i + j] @ called, c))"
  proof (rule Suc.IH)
    show "(ws \<circ> Suc) 0 = ws 1" by simp
    fix k assume "k < j"
    then show "Suc i + k < length (array ((ws \<circ> Suc) k)) \<and>
       m (array ((ws \<circ> Suc) k) ! (Suc i + k)) ((ws \<circ> Suc) k) = Normal ((ws \<circ> Suc) (Suc k))"
      using Suc.prems(2)[of "Suc k"] by simp
  qed
  have "for_of m array i w =
      Option.bind (for_of m array (Suc i) (ws 1)) (\<lambda>(called, c). Some (i # called, c))"
    using first by (subst for_of.simps) simp
  also have "\<dots> = Option.bind (for_of m array (i + Suc j) (ws (Suc j)))
       (\<lambda>(called, c). Some ([i..<i + Suc j] @ called, c))"
    unfolding rest using upt_from[of i j]
    by (cases "for_of m array (i + Suc j) (ws (Suc j))") auto
  finally show ?case .
qed

lemma for_of_end:
  assumes "ws 0 = w"
    and "\<And>k. k < j \<Longrightarrow> k < length (array (ws k)) \<and>
                 m (array (ws k) ! k) (ws k) = Normal (ws (Suc k))"
    and "length (array (ws j)) \<le> j"
  shows "for_of m array 0 w = Some ([0..<j], Normal (ws j))"
proof -
  have "for_of m array j (ws j) = Some ([], Normal (ws j))"
    using assms(3) by (subst for_of.simps) simp
  with for_of_run[of ws w j 0 array m] assms(1,2) show ?thesis by simp
qed

lemma for_of_throw:
  assumes "ws 0 = w"
    and "\<And>k. k < j \<Longrightarrow> k < length (array (ws k)) \<and>
                 m (array (ws k) ! k) (ws k) = Normal (ws (Suc k))"
    and "j < length (array (ws j))" and "m (array (ws j) ! j) (ws j) = Throw e w1"
  shows "for_of m array 0 w = Some ([0..<Suc j], Throw e w1)"
proof -
  have "for_of m array j (ws j) = Some ([j], Throw e w1)"
    using assms(3,4) by (subst for_of.simps) simp
  with for_of_run[of ws w j 0 array m] assms(1,2) show ?thesis by simp
qed

lemma for_of_Some:
  assumes "for_of m array i w = Some r"
  shows "\<exists>j ws. ws 0 = w \<and>
     (\<forall>k<j. i + k < length (array (ws k)) \<and>
             m (array (ws k) ! (i + k)) (ws k) = Normal (ws (Suc k))) \<and>
     ((length (array (ws j)) \<le> i + j \<and> r = ([i..<i + j], Normal (ws j))) \<or>
      (\<exists>e w1. i + j < length (array (ws j)) \<and>
              m (array (ws j) ! (i + j)) (ws j) = Throw e w1 \<and>
              r = ([i..<i + Suc j], Throw e w1)))"
proof (rule for_of.raw_induct[where P = "\<lambda>m array i w r. \<exists>j ws. ws 0 = w \<and>
     (\<forall>k<j. i + k < length (array (ws k)) \<and>
             m (array (ws k) ! (i + k)) (ws k) = Normal (ws (Suc k))) \<and>
     ((length (array (ws j)) \<le> i + j \<and> r = ([i..<i + j], Normal (ws j))) \<or>
      (\<exists>e w1. i + j < length (array (ws j)) \<and>
              m (array (ws j) ! (i + j)) (ws j) = Throw e w1 \<and>
              r = ([i..<i + Suc j], Throw e w1)))", OF _ assms])
  fix loop :: "(('a, 'b) Resource \<Rightarrow> ('a, 'b) callback) \<Rightarrow> ('b \<Rightarrow> ('a, 'b) Resource list) \<Rightarrow> nat \<Rightarrow> 'b \<Rightarrow>
   (nat list \<times> ('a thrown, 'b) completion) option"
    and m array i w r
  assume IH: "\<And>m array i w r. loop m array i w = Some r \<Longrightarrow> \<exists>j ws. ws 0 = w \<and>
     (\<forall>k<j. i + k < length (array (ws k)) \<and>
             m (array (ws k) ! (i + k)) (ws k) = Normal (ws (Suc k))) \<and>
     ((length (array (ws j)) \<le> i + j \<and> r = ([i..<i + j], Normal (ws j))) \<or>
      (\<exists>e w1. i + j < length (array (ws j)) \<and>
              m (array (ws j) ! (i + j)) (ws j) = Throw e w1 \<and>
              r = ([i..<i + Suc j], Throw e w1)))"
    and body: "(if i < length (array w) then
        (case m (array w ! i) w of
           Throw e w1 \<Rightarrow> Some ([i], Throw e w1)
         | Normal w1 \<Rightarrow>
             Option.bind (loop m array (Suc i) w1) (\<lambda>(called, c). Some (i # called, c)))
      else Some ([], Normal w)) = Some r"
  show "\<exists>j ws. ws 0 = w \<and>
     (\<forall>k<j. i + k < length (array (ws k)) \<and>
             m (array (ws k) ! (i + k)) (ws k) = Normal (ws (Suc k))) \<and>
     ((length (array (ws j)) \<le> i + j \<and> r = ([i..<i + j], Normal (ws j))) \<or>
      (\<exists>e w1. i + j < length (array (ws j)) \<and>
              m (array (ws j) ! (i + j)) (ws j) = Throw e w1 \<and>
              r = ([i..<i + Suc j], Throw e w1)))"
  proof (cases "i < length (array w)")
    case False
    with body have "r = ([], Normal w)" by simp
    with False show ?thesis
      by (intro exI[of _ 0] exI[of _ "\<lambda>_. w"]) simp
  next
    case True
    show ?thesis
    proof (cases "m (array w ! i) w")
      case (Throw e w1)
      with True body have "r = ([i], Throw e w1)" by simp
      with True Throw show ?thesis
        by (intro exI[of _ 0] exI[of _ "\<lambda>_. w"]) simp
    next
      case (Normal w1)
      with True body obtain called c where rec: "loop m array (Suc i) w1 = Some (called, c)"
        and r: "r = (i # called, c)"
        by (auto simp: bind_eq_Some_conv)
      from IH[OF rec] obtain j ws where ws: "ws 0 = w1"
        "\<forall>k<j. Suc i + k < length (array (ws k)) \<and>
             m (array (ws k) ! (Suc i + k)) (ws k) = Normal (ws (Suc k))"
        "(length (array (ws j)) \<le> Suc i + j \<and> (called, c) = ([Suc i..<Suc i + j], Normal (ws j))) \<or>
         (\<exists>e w2. Suc i + j < length (array (ws j)) \<and>
              m (array (ws j) ! (Suc i + j)) (ws j) = Throw e w2 \<and>
              (called, c) = ([Suc i..<Suc i + Suc j], Throw e w2))"
        by blast
      define vs where "vs = (\<lambda>k. case k of 0 \<Rightarrow> w | Suc k \<Rightarrow> ws k)"
      have vs: "vs 0 = w" "\<And>k. vs (Suc k) = ws k" by (simp_all add: vs_def)
      have steps: "\<forall>k<Suc j. i + k < length (array (vs k)) \<and>
             m (array (vs k) ! (i + k)) (vs k) = Normal (vs (Suc k))"
      proof (intro allI impI)
        fix k assume "k < Suc j"
        show "i + k < length (array (vs k)) \<and>
             m (array (vs k) ! (i + k)) (vs k) = Normal (vs (Suc k))"
        proof (cases k)
          case 0
          with True Normal ws(1) show ?thesis by (simp add: vs)
        next
          case (Suc k')
          with \<open>k < Suc j\<close> ws(2) show ?thesis by (simp add: vs)
        qed
      qed
      have "(length (array (vs (Suc j))) \<le> i + Suc j \<and> r = ([i..<i + Suc j], Normal (vs (Suc j)))) \<or>
         (\<exists>e w2. i + Suc j < length (array (vs (Suc j))) \<and>
              m (array (vs (Suc j)) ! (i + Suc j)) (vs (Suc j)) = Throw e w2 \<and>
              r = ([i..<i + Suc (Suc j)], Throw e w2))"
        using ws(3) r upt_from[of i j] upt_from[of i "Suc j"] by (auto simp: vs)
      with vs(1) steps show ?thesis by blast
    qed
  qed
qed

lemma registor_method:
  fixes objects :: "nat \<Rightarrow> ('e, 'u world) Resource"
  shows "(ws 0 = w \<and>
    (\<forall>k<j. k < length (resources (registor (ws k))) \<and>
            m (objects (resources (registor (ws k)) ! k)) (ws k) = Normal (ws (Suc k))) \<longrightarrow>
      (length (resources (registor (ws j))) \<le> j \<longrightarrow>
         for_of m (\<lambda>w. map objects (resources (registor w))) 0 w = Some ([0..<j], Normal (ws j))) \<and>
      (j < length (resources (registor (ws j))) \<and>
       m (objects (resources (registor (ws j)) ! j)) (ws j) = Throw e w1 \<longrightarrow>
         for_of m (\<lambda>w. map objects (resources (registor w))) 0 w = Some ([0..<Suc j], Throw e w1))) \<and>
   (for_of m (\<lambda>w. map objects (resources (registor w))) 0 w = Some r \<longrightarrow>
      (\<exists>j ws. ws 0 = w \<and>
         (\<forall>k<j. k < length (resources (registor (ws k))) \<and>
                 m (objects (resources (registor (ws k)) ! k)) (ws k) = Normal (ws (Suc k))) \<and>
         ((length (resources (registor (ws j))) \<le> j \<and> r = ([0..<j], Normal (ws j))) \<or>
          (\<exists>e w1. j < length (resources (registor (ws j))) \<and>
                  m (objects (resources (registor (ws j)) ! j)) (ws j) = Throw e w1 \<and>
                  r = ([0..<Suc j], Throw e w1)))))"
proof -
  let ?array = "\<lambda>w. map objects (resources (registor w))"
  have fwd_end: "for_of m ?array 0 w = Some ([0..<j], Normal (ws j))"
    if "ws 0 = w" "\<forall>k<j. k < length (resources (registor (ws k))) \<and>
            m (objects (resources (registor (ws k)) ! k)) (ws k) = Normal (ws (Suc k))"
       "length (resources (registor (ws j))) \<le> j"
    using that by (intro for_of_end) auto
  have fwd_throw: "for_of m ?array 0 w = Some ([0..<Suc j], Throw e w1)"
    if "ws 0 = w" "\<forall>k<j. k < length (resources (registor (ws k))) \<and>
            m (objects (resources (registor (ws k)) ! k)) (ws k) = Normal (ws (Suc k))"
       "j < length (resources (registor (ws j)))"
       "m (objects (resources (registor (ws j)) ! j)) (ws j) = Throw e w1"
    using that by (intro for_of_throw) auto
  have bwd: "\<exists>j ws. ws 0 = w \<and>
         (\<forall>k<j. k < length (resources (registor (ws k))) \<and>
                 m (objects (resources (registor (ws k)) ! k)) (ws k) = Normal (ws (Suc k))) \<and>
         ((length (resources (registor (ws j))) \<le> j \<and> r = ([0..<j], Normal (ws j))) \<or>
          (\<exists>e w1. j < length (resources (registor (ws j))) \<and>
                  m (objects (resources (registor (ws j)) ! j)) (ws j) = Throw e w1 \<and>
                  r = ([0..<Suc j], Throw e w1)))"
    if "for_of m ?array 0 w = Some r"
  proof -
    from for_of_Some[OF that] obtain j ws where ws: "ws 0 = w"
      "\<forall>k<j. k < length (?array (ws k)) \<and> m (?array (ws k) ! k) (ws k) = Normal (ws (Suc k))"
      "(length (?array (ws j)) \<le> j \<and> r = ([0..<j], Normal (ws j))) \<or>
       (\<exists>e w1. j < length (?array (ws j)) \<and> m (?array (ws j) ! j) (ws j) = Throw e w1 \<and>
               r = ([0..<Suc j], Throw e w1))"
      by auto
    from ws(2) have "\<forall>k<j. k < length (resources (registor (ws k))) \<and>
                 m (objects (resources (registor (ws k)) ! k)) (ws k) = Normal (ws (Suc k))"
      by auto
    moreover from ws(3) have "(length (resources (registor (ws j))) \<le> j \<and> r = ([0..<j], Normal (ws j))) \<or>
          (\<exists>e w1. j < length (resources (registor (ws j))) \<and>
                  m (objects (resources (registor (ws j)) ! j)) (ws j) = Throw e w1 \<and>
                  r = ([0..<Suc j], Throw e w1))"
      by auto
    ultimately show ?thesis using ws(1) by blast
  qed
  show ?thesis using fwd_end fwd_throw bwd by blast
qed

text \<open>
  C5, as the code has it. \<open>cancel()\<close> calls \<open>cancel()\<close> on the registered resources in
  registration order, each once, also those registered while it runs, until a call
  throws. Let the calls at positions \<open>0, ..., j - 1\<close> return, leaving the worlds
  \<open>ws 1, ..., ws j\<close> one after another from \<open>ws 0 = w\<close>. When the array then has no position
  \<open>j\<close>, \<open>cancel()\<close> returns, having called exactly the positions \<open>0, ..., j - 1\<close>. When
  the call at position \<open>j\<close> throws, \<open>cancel()\<close> throws that exception with the world
  that call left, having called exactly the positions \<open>0, ..., j\<close>: the resources after
  position \<open>j\<close> are not called. Every result of \<open>cancel()\<close> arises in one of these two
  ways. The same holds for \<open>finish()\<close>.
\<close>

theorem registor_calls_in_order_until_throw:
  fixes objects :: "nat \<Rightarrow> ('e, 'u world) Resource"
  shows "(ws 0 = w \<and>
    (\<forall>k<j. k < length (resources (registor (ws k))) \<and>
            cancel (objects (resources (registor (ws k)) ! k)) (ws k) = Normal (ws (Suc k))) \<longrightarrow>
      (length (resources (registor (ws j))) \<le> j \<longrightarrow>
         CancellableRegistor_cancel objects w = Some ([0..<j], Normal (ws j))) \<and>
      (j < length (resources (registor (ws j))) \<and>
       cancel (objects (resources (registor (ws j)) ! j)) (ws j) = Throw e w1 \<longrightarrow>
         CancellableRegistor_cancel objects w = Some ([0..<Suc j], Throw e w1))) \<and>
   (CancellableRegistor_cancel objects w = Some r \<longrightarrow>
      (\<exists>j ws. ws 0 = w \<and>
         (\<forall>k<j. k < length (resources (registor (ws k))) \<and>
                 cancel (objects (resources (registor (ws k)) ! k)) (ws k) = Normal (ws (Suc k))) \<and>
         ((length (resources (registor (ws j))) \<le> j \<and> r = ([0..<j], Normal (ws j))) \<or>
          (\<exists>e w1. j < length (resources (registor (ws j))) \<and>
                  cancel (objects (resources (registor (ws j)) ! j)) (ws j) = Throw e w1 \<and>
                  r = ([0..<Suc j], Throw e w1))))) \<and>
   (ws 0 = w \<and>
    (\<forall>k<j. k < length (resources (registor (ws k))) \<and>
            finish (objects (resources (registor (ws k)) ! k)) (ws k) = Normal (ws (Suc k))) \<longrightarrow>
      (length (resources (registor (ws j))) \<le> j \<longrightarrow>
         CancellableRegistor_finish objects w = Some ([0..<j], Normal (ws j))) \<and>
      (j < length (resources (registor (ws j))) \<and>
       finish (objects (resources (registor (ws j)) ! j)) (ws j) = Throw e w1 \<longrightarrow>
         CancellableRegistor_finish objects w = Some ([0..<Suc j], Throw e w1))) \<and>
   (CancellableRegistor_finish objects w = Some r \<longrightarrow>
      (\<exists>j ws. ws 0 = w \<and>
         (\<forall>k<j. k < length (resources (registor (ws k))) \<and>
                 finish (objects (resources (registor (ws k)) ! k)) (ws k) = Normal (ws (Suc k))) \<and>
         ((length (resources (registor (ws j))) \<le> j \<and> r = ([0..<j], Normal (ws j))) \<or>
          (\<exists>e w1. j < length (resources (registor (ws j))) \<and>
                  finish (objects (resources (registor (ws j)) ! j)) (ws j) = Throw e w1 \<and>
                  r = ([0..<Suc j], Throw e w1)))))"
  unfolding CancellableRegistor_cancel_def CancellableRegistor_finish_def
  using registor_method[of ws w j cancel objects e w1 r]
    registor_method[of ws w j finish objects e w1 r]
  by blast

theorem registor_calls_in_order_until_throw_witness:
  "CancellableRegistor_cancel
     (\<lambda>a. if a = 0 then \<lparr>cancel = (\<lambda>w. Normal (fst (CancellableRegistor_resource 2 (w\<lparr>others := others w + 1\<rparr>)))),
                               finish = Normal\<rparr>
             else if a = 1 then \<lparr>cancel = (\<lambda>w. Normal (w\<lparr>others := others w + 10\<rparr>)),
                                   finish = (\<lambda>w. Normal (w\<lparr>others := others w + 10\<rparr>))\<rparr>
             else \<lparr>cancel = Throw (Raised ()), finish = Normal\<rparr>)
     \<lparr>registor = \<lparr>resources = [0, 1]\<rparr>, others = 0::nat\<rparr>
     = Some ([0, 1, 2], Throw (Raised ()) \<lparr>registor = \<lparr>resources = [0, 1, 2]\<rparr>, others = 11\<rparr>) \<and>
   CancellableRegistor_finish
     (\<lambda>a. if a = 0 then \<lparr>cancel = (\<lambda>w. Normal (fst (CancellableRegistor_resource 2 (w\<lparr>others := others w + 1\<rparr>)))),
                               finish = Normal\<rparr>
             else if a = 1 then \<lparr>cancel = (\<lambda>w. Normal (w\<lparr>others := others w + 10\<rparr>)),
                                   finish = (\<lambda>w. Normal (w\<lparr>others := others w + 10\<rparr>))\<rparr>
             else \<lparr>cancel = Throw (Raised ()), finish = Normal\<rparr>)
     \<lparr>registor = \<lparr>resources = [0, 1]\<rparr>, others = 0::nat\<rparr>
     = Some ([0, 1], Normal \<lparr>registor = \<lparr>resources = [0, 1]\<rparr>, others = 10\<rparr>)"
proof -
  let ?objects = "(\<lambda>a. if a = 0 then \<lparr>cancel = (\<lambda>w. Normal (fst (CancellableRegistor_resource 2 (w\<lparr>others := others w + 1\<rparr>)))),
                               finish = Normal\<rparr>
             else if a = 1 then \<lparr>cancel = (\<lambda>w. Normal (w\<lparr>others := others w + 10\<rparr>)),
                                   finish = (\<lambda>w. Normal (w\<lparr>others := others w + 10\<rparr>))\<rparr>
             else \<lparr>cancel = Throw (Raised ()), finish = Normal\<rparr>) :: nat \<Rightarrow> (unit, nat world) Resource"
  let ?w0 = "\<lparr>registor = \<lparr>resources = [0, 1]\<rparr>, others = 0::nat\<rparr>"
  let ?w1 = "\<lparr>registor = \<lparr>resources = [0, 1, 2]\<rparr>, others = 1::nat\<rparr>"
  let ?w2 = "\<lparr>registor = \<lparr>resources = [0, 1, 2]\<rparr>, others = 11::nat\<rparr>"
  let ?ws = "\<lambda>k::nat. if k = 0 then ?w0 else if k = 1 then ?w1 else ?w2"
  let ?v2 = "\<lparr>registor = \<lparr>resources = [0, 1]\<rparr>, others = 10::nat\<rparr>"
  let ?vs = "\<lambda>k::nat. if k = 0 then ?w0 else if k = 1 then ?w0 else ?v2"
  have c: "?ws 0 = ?w0 \<and>
    (\<forall>k<2. k < length (resources (registor (?ws k))) \<and>
            cancel (?objects (resources (registor (?ws k)) ! k)) (?ws k) = Normal (?ws (Suc k)))"
    by (simp add: less_Suc_eq numeral_2_eq_2 CancellableRegistor_resource_def)
  have ct: "2 < length (resources (registor (?ws 2))) \<and>
       cancel (?objects (resources (registor (?ws 2)) ! 2)) (?ws 2) = Throw (Raised ()) ?w2"
    by simp
  have f: "?vs 0 = ?w0 \<and>
    (\<forall>k<2. k < length (resources (registor (?vs k))) \<and>
            finish (?objects (resources (registor (?vs k)) ! k)) (?vs k) = Normal (?vs (Suc k)))"
    by (simp add: less_Suc_eq numeral_2_eq_2)
  have fe: "length (resources (registor (?vs 2))) \<le> 2"
    by simp
  from registor_calls_in_order_until_throw[of ?ws ?w0 2 ?objects "Raised ()" ?w2] c ct
  have "CancellableRegistor_cancel ?objects ?w0 = Some ([0..<Suc 2], Throw (Raised ()) ?w2)"
    by blast
  moreover
  from registor_calls_in_order_until_throw[of ?vs ?w0 2 ?objects] f fe
  have "CancellableRegistor_finish ?objects ?w0 = Some ([0..<2], Normal (?vs 2))"
    by blast
  ultimately show ?thesis
    by (simp add: upt_conv_Cons)
qed

text \<open>
  C5 as stated fails: with two resources registered, the first of which throws from
  \<open>cancel()\<close>, the registrar's \<open>cancel()\<close> calls the first only; the second resource's
  \<open>cancel()\<close> is never called and the exception reaches the caller.
\<close>

theorem registor_cancel_stops_at_throw:
  "CancellableRegistor_cancel
     (\<lambda>a. if a = 0 then \<lparr>cancel = Throw (Raised ()), finish = Normal\<rparr>
           else \<lparr>cancel = (\<lambda>w. Normal (w\<lparr>others := others w + 1\<rparr>)), finish = Normal\<rparr>)
     \<lparr>registor = \<lparr>resources = [0, 1]\<rparr>, others = 0::nat\<rparr>
     = Some ([0], Throw (Raised ()) \<lparr>registor = \<lparr>resources = [0, 1]\<rparr>, others = 0\<rparr>) \<and>
   [0] \<noteq> [0..<length (resources (registor \<lparr>registor = \<lparr>resources = [0, 1]\<rparr>, others = 0::nat\<rparr>))]"
  by (simp add: CancellableRegistor_cancel_def for_of.simps upt_conv_Cons)

text \<open>
  C4, as the code has it. Neither class keeps a state. The \<open>cancel\<close> and \<open>finish\<close> of a
  CancellablePromise are the callbacks its executor returned, so calling one of them
  twice runs the executor's callback twice. Calling twice has the effect of calling once
  when the callback returns and, run again on the world it left, leaves that world
  unchanged. A registrar's second \<open>cancel()\<close> (\<open>finish()\<close>) calls every registered resource
  again; it changes nothing when the first pass completed and each resource's
  \<open>cancel()\<close> (\<open>finish()\<close>) leaves the world of the first pass unchanged.
\<close>

theorem cancel_finish_twice:
  "((executor :: ('e, 'w) Executor) w0 = (w1, Inr callbacks) \<longrightarrow>
      (case new_CancellablePromise executor w0 of
         (w2, p) \<Rightarrow>
           w2 = w1 \<and> cancel p = cancel callbacks \<and> finish p = finish callbacks \<and>
           twice (cancel p) w = (case cancel callbacks w of
                                   Normal w3 \<Rightarrow> cancel callbacks w3 | Throw e w3 \<Rightarrow> Throw e w3) \<and>
           twice (finish p) w = (case finish callbacks w of
                                   Normal w3 \<Rightarrow> finish callbacks w3 | Throw e w3 \<Rightarrow> Throw e w3))) \<and>
   (cancel (r :: ('e, 'w) Resource) w = Normal w' \<and> cancel r w' = Normal w' \<longrightarrow>
      twice (cancel r) w = cancel r w) \<and>
   (finish r w = Normal w' \<and> finish r w' = Normal w' \<longrightarrow> twice (finish r) w = finish r w) \<and>
   (map_option snd (CancellableRegistor_cancel (objects :: nat \<Rightarrow> ('e, 'u world) Resource) v)
      = Some (Normal v') \<and>
    list_all (\<lambda>x. cancel (objects x) v' = Normal v') (resources (registor v')) \<longrightarrow>
      CancellableRegistor_cancel objects v'
        = Some ([0..<length (resources (registor v'))], Normal v')) \<and>
   (map_option snd (CancellableRegistor_finish objects v) = Some (Normal v') \<and>
    list_all (\<lambda>x. finish (objects x) v' = Normal v') (resources (registor v')) \<longrightarrow>
      CancellableRegistor_finish objects v'
        = Some ([0..<length (resources (registor v'))], Normal v'))"
proof -
  have promise: "case new_CancellablePromise executor w0 of
         (w2, p) \<Rightarrow>
           w2 = w1 \<and> cancel p = cancel callbacks \<and> finish p = finish callbacks \<and>
           twice (cancel p) w = (case cancel callbacks w of
                                   Normal w3 \<Rightarrow> cancel callbacks w3 | Throw e w3 \<Rightarrow> Throw e w3) \<and>
           twice (finish p) w = (case finish callbacks w of
                                   Normal w3 \<Rightarrow> finish callbacks w3 | Throw e w3 \<Rightarrow> Throw e w3)"
    if "executor w0 = (w1, Inr callbacks)"
    using that by (simp add: new_CancellablePromise_def twice_def split: completion.splits)
  have once: "twice m w = m w" if "m w = Normal w'" "m w' = Normal w'" for m :: "('e, 'w) callback"
    using that by (simp add: twice_def)
  have pass: "for_of m (\<lambda>w. map objects (resources (registor w))) 0 v'
        = Some ([0..<length (resources (registor v'))], Normal v')"
    if "list_all (\<lambda>x. m (objects x) v' = Normal v') (resources (registor v'))"
    for m :: "('e, 'u world) Resource \<Rightarrow> ('e, 'u world) callback"
  proof (rule for_of_end[where ws = "\<lambda>_. v'"])
    show "v' = v'" by simp
    show "length (map objects (resources (registor v'))) \<le> length (resources (registor v'))"
      by simp
    fix k assume "k < length (resources (registor v'))"
    with that show "k < length (map objects (resources (registor v'))) \<and>
         m (map objects (resources (registor v')) ! k) v' = Normal v'"
      by (simp add: list_all_length)
  qed
  show ?thesis
    using promise once[of "cancel r"] once[of "finish r"] pass[of cancel] pass[of finish]
    unfolding CancellableRegistor_cancel_def CancellableRegistor_finish_def
    by blast
qed

text \<open>
  C4 as stated fails: for a CancellablePromise whose executor returns callbacks that
  count their calls, the second \<open>cancel()\<close> runs the callback again (the count is 2,
  not 1), \<open>finish()\<close> after \<open>cancel()\<close> still runs the finish callback, and a registrar
  holding such a resource calls it again on its second \<open>cancel()\<close>.
\<close>

theorem cancel_twice_runs_callback_twice:
  "(case new_CancellablePromise
           (\<lambda>n::nat. (n, Inr \<lparr>cancel = (\<lambda>n. Normal (n + 1)), finish = (\<lambda>n. Normal (n + 100))\<rparr>)) 0 of
      (w, p) \<Rightarrow>
        cancel p w = Normal 1 \<and>
        twice (cancel p) w = (Normal 2 :: (unit thrown, nat) completion) \<and>
        twice (finish p) w = Normal 200 \<and>
        (case cancel p w of Normal w1 \<Rightarrow> finish p w1 | Throw e w1 \<Rightarrow> Throw e w1) = Normal 101) \<and>
   CancellableRegistor_cancel (\<lambda>a. \<lparr>cancel = (\<lambda>w. Normal (w\<lparr>others := others w + 1\<rparr>)), finish = Normal\<rparr>)
     \<lparr>registor = \<lparr>resources = [0]\<rparr>, others = 0::nat\<rparr>
     = Some ([0], Normal \<lparr>registor = \<lparr>resources = [0]\<rparr>, others = 1\<rparr> :: (unit thrown, nat world) completion) \<and>
   CancellableRegistor_cancel (\<lambda>a. \<lparr>cancel = (\<lambda>w. Normal (w\<lparr>others := others w + 1\<rparr>)), finish = Normal\<rparr>)
     \<lparr>registor = \<lparr>resources = [0]\<rparr>, others = 1::nat\<rparr>
     = Some ([0], Normal \<lparr>registor = \<lparr>resources = [0]\<rparr>, others = 2\<rparr> :: (unit thrown, nat world) completion)"
  by (simp add: new_CancellablePromise_def twice_def CancellableRegistor_cancel_def for_of.simps)

theorem cancel_finish_twice_witness:
  "(case new_CancellablePromise
           (\<lambda>b::bool \<times> bool. (b, Inr \<lparr>cancel = (\<lambda>(c, f). Normal (True, f)), finish = (\<lambda>(c, f). Normal (c, True))\<rparr>)) (False, False) of
      (w, p) \<Rightarrow>
        w = (False, False) \<and>
        twice (cancel p) (False, False) = (Normal (True, False) :: (unit thrown, bool \<times> bool) completion) \<and>
        twice (finish p) (False, False) = Normal (False, True)) \<and>
   twice (cancel \<lparr>cancel = (\<lambda>(c, f). Normal (True, f)), finish = (\<lambda>(c, f). Normal (c, True))\<rparr>) (False, False)
     = (Normal (True, False) :: (unit thrown, bool \<times> bool) completion) \<and>
   twice (finish \<lparr>cancel = (\<lambda>(c, f). Normal (True, f)), finish = (\<lambda>(c, f). Normal (c, True))\<rparr>) (False, False)
     = (Normal (False, True) :: (unit thrown, bool \<times> bool) completion) \<and>
   CancellableRegistor_cancel (\<lambda>a. if a = 0
            then \<lparr>cancel = (\<lambda>w. Normal (w\<lparr>others := (True, snd (others w))\<rparr>)),
                  finish = (\<lambda>w. Normal (w\<lparr>others := (fst (others w), True)\<rparr>))\<rparr>
            else \<lparr>cancel = Normal, finish = Normal\<rparr>)
     \<lparr>registor = \<lparr>resources = [0, 1]\<rparr>, others = (True, False)\<rparr>
     = Some ([0, 1], Normal \<lparr>registor = \<lparr>resources = [0, 1]\<rparr>, others = (True, False)\<rparr> :: (unit thrown, (bool \<times> bool) world) completion)"
proof -
  let ?objects = "(\<lambda>a. if a = 0
            then \<lparr>cancel = (\<lambda>w. Normal (w\<lparr>others := (True, snd (others w))\<rparr>)),
                  finish = (\<lambda>w. Normal (w\<lparr>others := (fst (others w), True)\<rparr>))\<rparr>
            else \<lparr>cancel = Normal, finish = Normal\<rparr>) :: nat \<Rightarrow> (unit, (bool \<times> bool) world) Resource"
  let ?v = "\<lparr>registor = \<lparr>resources = [0, 1]\<rparr>, others = (False, False)\<rparr>"
  let ?v' = "\<lparr>registor = \<lparr>resources = [0, 1]\<rparr>, others = (True, False)\<rparr>"
  have first: "map_option snd (CancellableRegistor_cancel ?objects ?v) = Some (Normal ?v')"
    by (simp add: CancellableRegistor_cancel_def for_of.simps)
  have noop: "list_all (\<lambda>x. cancel (?objects x) ?v' = Normal ?v') (resources (registor ?v'))"
    by simp
  from cancel_finish_twice
    [of "\<lambda>b::bool \<times> bool. (b, Inr \<lparr>cancel = (\<lambda>(c, f). Normal (True, f)), finish = (\<lambda>(c, f). Normal (c, True))\<rparr>)"
        "(False, False)" "(False, False)"
        "\<lparr>cancel = (\<lambda>(c, f). Normal (True, f)), finish = (\<lambda>(c, f). Normal (c, True))\<rparr>"
        "(False, False)"
        "\<lparr>cancel = (\<lambda>(c, f). Normal (True, f)), finish = (\<lambda>(c, f). Normal (c, True))\<rparr>"
        "(True, False)" ?objects ?v ?v'] first noop
  show ?thesis
    by (simp add: new_CancellablePromise_def twice_def)
qed

section \<open>Properties of the translate factories\<close>

lemma js_strict_eq_Num: "js_strict_eq a (Num r) = (a = Num r)"
  by (cases a) auto

lemma js_strict_eq_Num_left: "js_strict_eq (Num r) a = (a = Num r)"
  by (cases a) auto

lemma Vector3_equals_identity: "Vector3_equals scale identity = (scale = identity)"
  by (cases scale) (auto simp: Vector3_equals_def identity_def js_strict_eq_Num_left)

text \<open>
  C7. The \<open>transform\<close> getter throws NoOpError exactly when the parameters describe no
  operation: for MoveFactory when the manhattan length of \<open>move\<close> is below \<open>10e-6\<close>, for
  RotateFactory when \<open>angle\<close> is 0, for ScaleFactory when \<open>scale\<close> is (1, 1, 1). The throw
  comes before any call into the backend, and the getter throws no other factory error.
\<close>

theorem transform_NoOpError:
  "(snd (transform fadd (MoveFactory move pivot)) = Inl NoOpError)
     = js_lt (manhattanLength fadd move) lit_10e_6 \<and>
   (snd (transform fadd (RotateFactory pivot axis angle)) = Inl NoOpError) = (angle = Num 0) \<and>
   (snd (transform fadd (ScaleFactory scale pivot)) = Inl NoOpError)
     = (scale = \<lparr>v_x = Num 1, v_y = Num 1, v_z = Num 1\<rparr>) \<and>
   (snd (transform fadd ps) = Inl NoOpError \<longrightarrow> fst (transform fadd ps) = []) \<and>
   (snd (transform fadd ps) \<noteq> Inl ValidationError)"
proof -
  have "snd (transform fadd ps) = Inl NoOpError \<longrightarrow> fst (transform fadd ps) = []"
    by (cases ps) auto
  moreover have "snd (transform fadd ps) \<noteq> Inl ValidationError"
    by (cases ps) auto
  moreover have "(snd (transform fadd (ScaleFactory scale pivot)) = Inl NoOpError)
     = (scale = \<lparr>v_x = Num 1, v_y = Num 1, v_z = Num 1\<rparr>)"
    using Vector3_equals_identity[of scale] by (simp add: identity_def)
  moreover have "(snd (transform fadd (RotateFactory pivot axis angle)) = Inl NoOpError) = (angle = Num 0)"
    by (simp add: js_strict_eq_Num)
  moreover have "(snd (transform fadd (MoveFactory move pivot)) = Inl NoOpError)
     = js_lt (manhattanLength fadd move) lit_10e_6"
    by simp
  ultimately show ?thesis by blast
qed

lemma doUpdate_items:
  "items f = Some its \<Longrightarrow> doUpdate t f = Inr f1 \<Longrightarrow>
     \<exists>its1. items f1 = Some its1 \<and> map Item.more its1 = map Item.more its"
  by (auto split: translate_params.splits if_splits sum.splits prod.splits)

lemma updates_items:
  "items f = Some its \<Longrightarrow>
     \<exists>its1. items (updates t ps f) = Some its1 \<and> map Item.more its1 = map Item.more its"
proof (induction ps arbitrary: f its)
  case Nil
  then show ?case by simp
next
  case (Cons p ps)
  have set: "items (f\<lparr>params := p\<rparr>) = Some its"
    using Cons.prems by simp
  show ?case
  proof (cases "doUpdate t (f\<lparr>params := p\<rparr>)")
    case (Inl e)
    then show ?thesis using Cons.IH[OF set] by simp
  next
    case (Inr f1)
    from doUpdate_items[OF set Inr] obtain its1
      where its1: "items f1 = Some its1" "map Item.more its1 = map Item.more its" by blast
    from Cons.IH[OF its1(1)] its1(2) Inr show ?thesis by simp
  qed
qed

lemma reset_items_eq:
  "list_all is_reset xs \<Longrightarrow> list_all is_reset ys \<Longrightarrow> map Item.more xs = map Item.more ys \<Longrightarrow> xs = ys"
proof (induction xs arbitrary: ys)
  case Nil
  then show ?case by simp
next
  case (Cons x xs)
  then obtain y ys' where ys: "ys = y # ys'" by (cases ys) auto
  with Cons.prems have "x = y"
    by (cases x, cases y) (simp add: is_reset_def)
  with Cons ys show ?case by simp
qed

text \<open>
  C8, as the code has it. On a factory whose items were never assigned, \<open>doCancel\<close>
  throws a TypeError. Once the items have been assigned, whatever updates ran since
  (none included), \<open>doCancel\<close> returns and changes the factory in its items only: the items
  are the same objects, in the same order, each with position (0, 0, 0), the identity
  quaternion and scale (1, 1, 1), and everything else they carry unchanged; calling it
  again changes nothing. It keeps no record of the items' state before the first update:
  what it restores is that state exactly when the items had the identity transform then.
  In particular \<open>doCancel\<close> right after the \<open>items\<close> setter, with no update called,
  returns with the items reset.
\<close>

theorem doCancel_resets_items:
  "(items f = None \<longrightarrow> doCancel f = Inl TypeError) \<and>
   (items f = Some its \<longrightarrow>
      (\<exists>its1 its2.
         items (updates t ps f) = Some its1 \<and> map Item.more its1 = map Item.more its \<and>
         doCancel (updates t ps f) = Inr ((updates t ps f)\<lparr>items := Some its2\<rparr>) \<and>
         length its2 = length its \<and> map Item.more its2 = map Item.more its \<and>
         list_all (\<lambda>item. item_position item = \<lparr>v_x = Num 0, v_y = Num 0, v_z = Num 0\<rparr> \<and>
                          item_quaternion item =
                            \<lparr>q_x = Num 0, q_y = Num 0, q_z = Num 0, q_w = Num 1\<rparr> \<and>
                          item_scale item = \<lparr>v_x = Num 1, v_y = Num 1, v_z = Num 1\<rparr>) its2 \<and>
         doCancel ((updates t ps f)\<lparr>items := Some its2\<rparr>)
           = Inr ((updates t ps f)\<lparr>items := Some its2\<rparr>) \<and>
         (its2 = its) = list_all is_reset its)) \<and>
   (\<exists>its0. doCancel (set_items its f) = Inr (set_items its0 f) \<and>
           length its0 = length its \<and> map Item.more its0 = map Item.more its \<and>
           list_all is_reset its0)"
proof -
  have none: "doCancel f = Inl TypeError" if "items f = None"
    using that by (simp add: doCancel_def)
  have some: "\<exists>its1 its2.
         items (updates t ps f) = Some its1 \<and> map Item.more its1 = map Item.more its \<and>
         doCancel (updates t ps f) = Inr ((updates t ps f)\<lparr>items := Some its2\<rparr>) \<and>
         length its2 = length its \<and> map Item.more its2 = map Item.more its \<and>
         list_all (\<lambda>item. item_position item = \<lparr>v_x = Num 0, v_y = Num 0, v_z = Num 0\<rparr> \<and>
                          item_quaternion item =
                            \<lparr>q_x = Num 0, q_y = Num 0, q_z = Num 0, q_w = Num 1\<rparr> \<and>
                          item_scale item = \<lparr>v_x = Num 1, v_y = Num 1, v_z = Num 1\<rparr>) its2 \<and>
         doCancel ((updates t ps f)\<lparr>items := Some its2\<rparr>)
           = Inr ((updates t ps f)\<lparr>items := Some its2\<rparr>) \<and>
         (its2 = its) = list_all is_reset its"
    if f: "items f = Some its"
  proof -
    from updates_items[OF f, of t ps] obtain its1
      where its1: "items (updates t ps f) = Some its1" "map Item.more its1 = map Item.more its"
      by blast
    define its2 where "its2 = map (\<lambda>item. item\<lparr>item_position := origin,
                               item_quaternion := identity_quaternion,
                               item_scale := identity\<rparr>) its1"
    have c: "doCancel (updates t ps f) = Inr ((updates t ps f)\<lparr>items := Some its2\<rparr>)"
      using its1(1) by (simp add: doCancel_def its2_def)
    have more: "map Item.more its2 = map Item.more its"
      using its1(2) by (simp add: its2_def comp_def)
    then have len: "length its2 = length its"
      by (metis length_map)
    have reset: "list_all is_reset its2"
      by (simp add: its2_def is_reset_def list_all_iff)
    then have reset': "list_all (\<lambda>item. item_position item = \<lparr>v_x = Num 0, v_y = Num 0, v_z = Num 0\<rparr> \<and>
                          item_quaternion item =
                            \<lparr>q_x = Num 0, q_y = Num 0, q_z = Num 0, q_w = Num 1\<rparr> \<and>
                          item_scale item = \<lparr>v_x = Num 1, v_y = Num 1, v_z = Num 1\<rparr>) its2"
      by (simp add: list_all_iff is_reset_def origin_def identity_def identity_quaternion_def)
    have again: "map (\<lambda>item. item\<lparr>item_position := origin,
                               item_quaternion := identity_quaternion,
                               item_scale := identity\<rparr>) its2 = its2"
      by (simp add: its2_def)
    have idem: "doCancel ((updates t ps f)\<lparr>items := Some its2\<rparr>)
           = Inr ((updates t ps f)\<lparr>items := Some its2\<rparr>)"
      by (simp add: doCancel_def again)
    have "its2 = its" if "list_all is_reset its"
      using reset_items_eq[OF reset that more] .
    with reset have base: "(its2 = its) = list_all is_reset its"
      by blast
    from its1 c len more reset' idem base show ?thesis by blast
  qed
  have fresh: "\<exists>its0. doCancel (set_items its f) = Inr (set_items its0 f) \<and>
           length its0 = length its \<and> map Item.more its0 = map Item.more its \<and>
           list_all is_reset its0"
    by (intro exI[of _ "map (\<lambda>item. item\<lparr>item_position := origin,
                               item_quaternion := identity_quaternion,
                               item_scale := identity\<rparr>) its"])
       (simp add: doCancel_def set_items_def is_reset_def list_all_iff comp_def)
  from none some fresh show ?thesis by blast
qed

theorem transform_NoOpError_witness:
  "transform (\<lambda>a b. case a of Num r \<Rightarrow> (case b of Num s \<Rightarrow> Num (r + s) | _ \<Rightarrow> NaN) | _ \<Rightarrow> NaN)
     (MoveFactory \<lparr>v_x = Num 0, v_y = Num (- (1 / 1000000)), v_z = Num 0\<rparr>
                  \<lparr>v_x = Num 0, v_y = Num 0, v_z = Num 0\<rparr>) = ([], Inl NoOpError) \<and>
   snd (transform (\<lambda>a b. case a of Num r \<Rightarrow> (case b of Num s \<Rightarrow> Num (r + s) | _ \<Rightarrow> NaN) | _ \<Rightarrow> NaN)
     (RotateFactory \<lparr>v_x = Num 0, v_y = Num 0, v_z = Num 0\<rparr>
                    \<lparr>v_x = Num 0, v_y = Num 0, v_z = Num 1\<rparr> (Num 0))) = Inl NoOpError \<and>
   snd (transform (\<lambda>a b. case a of Num r \<Rightarrow> (case b of Num s \<Rightarrow> Num (r + s) | _ \<Rightarrow> NaN) | _ \<Rightarrow> NaN)
     (ScaleFactory \<lparr>v_x = Num 1, v_y = Num 1, v_z = Num 1\<rparr>
                   \<lparr>v_x = Num 0, v_y = Num 0, v_z = Num 0\<rparr>)) = Inl NoOpError"
  using transform_NoOpError
    [where fadd = "\<lambda>a b. case a of Num r \<Rightarrow> (case b of Num s \<Rightarrow> Num (r + s) | _ \<Rightarrow> NaN) | _ \<Rightarrow> NaN"
       and move = "\<lparr>v_x = Num 0, v_y = Num (- (1 / 1000000)), v_z = Num 0\<rparr>"
       and pivot = "\<lparr>v_x = Num 0, v_y = Num 0, v_z = Num 0\<rparr>"
       and axis = "\<lparr>v_x = Num 0, v_y = Num 0, v_z = Num 1\<rparr>"
       and angle = "Num 0"
       and scale = "\<lparr>v_x = Num 1, v_y = Num 1, v_z = Num 1\<rparr>"
       and ps = "MoveFactory \<lparr>v_x = Num 0, v_y = Num (- (1 / 1000000)), v_z = Num 0\<rparr>
                  \<lparr>v_x = Num 0, v_y = Num 0, v_z = Num 0\<rparr>"]
  by (simp add: manhattanLength_def lit_10e_6_def)

theorem doCancel_resets_items_witness:
  "doCancel (updates
      \<lparr>number_add = (\<lambda>a b. case a of Num r \<Rightarrow> (case b of Num s \<Rightarrow> Num (r + s) | _ \<Rightarrow> NaN) | _ \<Rightarrow> NaN),
       Matrix4_decompose = (\<lambda>tv. case tv of
            Moved v \<Rightarrow> (v, \<lparr>q_x = Num 0, q_y = Num 0, q_z = Num 0, q_w = Num 1\<rparr>,
                         \<lparr>v_x = Num 1, v_y = Num 1, v_z = Num 1\<rparr>)
          | _ \<Rightarrow> (\<lparr>v_x = Num 0, v_y = Num 0, v_z = Num 0\<rparr>,
                   \<lparr>q_x = Num 0, q_y = Num 0, q_z = Num 0, q_w = Num 1\<rparr>,
                   \<lparr>v_x = Num 2, v_y = Num 2, v_z = Num 2\<rparr>)),
       Vector3_sub = (\<lambda>a b. a), Vector3_add = (\<lambda>a b. b),
       Vector3_applyAxisAngle = (\<lambda>v axis angle. v),
       Quaternion_setFromAxisAngle = (\<lambda>axis angle. \<lparr>q_x = Num 0, q_y = Num 0, q_z = Num 1, q_w = Num 0\<rparr>)\<rparr>
      [MoveFactory \<lparr>v_x = Num 3, v_y = Num 0, v_z = Num 0\<rparr> \<lparr>v_x = Num 0, v_y = Num 0, v_z = Num 0\<rparr>,
       RotateFactory \<lparr>v_x = Num 5, v_y = Num 0, v_z = Num 0\<rparr> \<lparr>v_x = Num 0, v_y = Num 0, v_z = Num 1\<rparr> (Num 1)]
      \<lparr>items = Some [\<lparr>item_position = \<lparr>v_x = Num 0, v_y = Num 0, v_z = Num 0\<rparr>,
                 item_quaternion = \<lparr>q_x = Num 0, q_y = Num 0, q_z = Num 0, q_w = Num 1\<rparr>,
                 item_scale = \<lparr>v_x = Num 1, v_y = Num 1, v_z = Num 1\<rparr>\<rparr>],
        params = ScaleFactory \<lparr>v_x = Num 1, v_y = Num 1, v_z = Num 1\<rparr> \<lparr>v_x = Num 0, v_y = Num 0, v_z = Num 0\<rparr>\<rparr>)
   = Inr \<lparr>items = Some [\<lparr>item_position = \<lparr>v_x = Num 0, v_y = Num 0, v_z = Num 0\<rparr>,
                 item_quaternion = \<lparr>q_x = Num 0, q_y = Num 0, q_z = Num 0, q_w = Num 1\<rparr>,
                 item_scale = \<lparr>v_x = Num 1, v_y = Num 1, v_z = Num 1\<rparr>\<rparr>],
          params = RotateFactory \<lparr>v_x = Num 5, v_y = Num 0, v_z = Num 0\<rparr> \<lparr>v_x = Num 0, v_y = Num 0, v_z = Num 1\<rparr> (Num 1)\<rparr> \<and>
   items (updates
      \<lparr>number_add = (\<lambda>a b. case a of Num r \<Rightarrow> (case b of Num s \<Rightarrow> Num (r + s) | _ \<Rightarrow> NaN) | _ \<Rightarrow> NaN),
       Matrix4_decompose = (\<lambda>tv. case tv of
            Moved v \<Rightarrow> (v, \<lparr>q_x = Num 0, q_y = Num 0, q_z = Num 0, q_w = Num 1\<rparr>,
                         \<lparr>v_x = Num 1, v_y = Num 1, v_z = Num 1\<rparr>)
          | _ \<Rightarrow> (\<lparr>v_x = Num 0, v_y = Num 0, v_z = Num 0\<rparr>,
                   \<lparr>q_x = Num 0, q_y = Num 0, q_z = Num 0, q_w = Num 1\<rparr>,
                   \<lparr>v_x = Num 2, v_y = Num 2, v_z = Num 2\<rparr>)),
       Vector3_sub = (\<lambda>a b. a), Vector3_add = (\<lambda>a b. b),
       Vector3_applyAxisAngle = (\<lambda>v axis angle. v),
       Quaternion_setFromAxisAngle = (\<lambda>axis angle. \<lparr>q_x = Num 0, q_y = Num 0, q_z = Num 1, q_w = Num 0\<rparr>)\<rparr>
      [MoveFactory \<lparr>v_x = Num 3, v_y = Num 0, v_z = Num 0\<rparr> \<lparr>v_x = Num 0, v_y = Num 0, v_z = Num 0\<rparr>,
       RotateFactory \<lparr>v_x = Num 5, v_y = Num 0, v_z = Num 0\<rparr> \<lparr>v_x = Num 0, v_y = Num 0, v_z = Num 1\<rparr> (Num 1)]
      \<lparr>items = Some [\<lparr>item_position = \<lparr>v_x = Num 0, v_y = Num 0, v_z = Num 0\<rparr>,
                 item_quaternion = \<lparr>q_x = Num 0, q_y = Num 0, q_z = Num 0, q_w = Num 1\<rparr>,
                 item_scale = \<lparr>v_x = Num 1, v_y = Num 1, v_z = Num 1\<rparr>\<rparr>],
        params = ScaleFactory \<lparr>v_x = Num 1, v_y = Num 1, v_z = Num 1\<rparr> \<lparr>v_x = Num 0, v_y = Num 0, v_z = Num 0\<rparr>\<rparr>)
   = Some [\<lparr>item_position = \<lparr>v_x = Num 5, v_y = Num 0, v_z = Num 0\<rparr>,
       item_quaternion = \<lparr>q_x = Num 0, q_y = Num 0, q_z = Num 1, q_w = Num 0\<rparr>,
       item_scale = \<lparr>v_x = Num 1, v_y = Num 1, v_z = Num 1\<rparr>\<rparr>] \<and>
   doCancel \<lparr>items = None, params = ScaleFactory \<lparr>v_x = Num 1, v_y = Num 1, v_z = Num 1\<rparr> \<lparr>v_x = Num 0, v_y = Num 0, v_z = Num 0\<rparr>\<rparr> = Inl TypeError"
  using doCancel_resets_items
    [where t = "\<lparr>number_add = (\<lambda>a b. case a of Num r \<Rightarrow> (case b of Num s \<Rightarrow> Num (r + s) | _ \<Rightarrow> NaN) | _ \<Rightarrow> NaN),
       Matrix4_decompose = (\<lambda>tv. case tv of
            Moved v \<Rightarrow> (v, \<lparr>q_x = Num 0, q_y = Num 0, q_z = Num 0, q_w = Num 1\<rparr>,
                         \<lparr>v_x = Num 1, v_y = Num 1, v_z = Num 1\<rparr>)
          | _ \<Rightarrow> (\<lparr>v_x = Num 0, v_y = Num 0, v_z = Num 0\<rparr>,
                   \<lparr>q_x = Num 0, q_y = Num 0, q_z = Num 0, q_w = Num 1\<rparr>,
                   \<lparr>v_x = Num 2, v_y = Num 2, v_z = Num 2\<rparr>)),
       Vector3_sub = (\<lambda>a b. a), Vector3_add = (\<lambda>a b. b),
       Vector3_applyAxisAngle = (\<lambda>v axis angle. v),
       Quaternion_setFromAxisAngle = (\<lambda>axis angle. \<lparr>q_x = Num 0, q_y = Num 0, q_z = Num 1, q_w = Num 0\<rparr>)\<rparr>"
      and ps = "[MoveFactory \<lparr>v_x = Num 3, v_y = Num 0, v_z = Num 0\<rparr> \<lparr>v_x = Num 0, v_y = Num 0, v_z = Num 0\<rparr>,
       RotateFactory \<lparr>v_x = Num 5, v_y = Num 0, v_z = Num 0\<rparr> \<lparr>v_x = Num 0, v_y = Num 0, v_z = Num 1\<rparr> (Num 1)]"
      and f = "\<lparr>items = Some [\<lparr>item_position = \<lparr>v_x = Num 0, v_y = Num 0, v_z = Num 0\<rparr>,
                 item_quaternion = \<lparr>q_x = Num 0, q_y = Num 0, q_z = Num 0, q_w = Num 1\<rparr>,
                 item_scale = \<lparr>v_x = Num 1, v_y = Num 1, v_z = Num 1\<rparr>\<rparr>],
        params = ScaleFactory \<lparr>v_x = Num 1, v_y = Num 1, v_z = Num 1\<rparr> \<lparr>v_x = Num 0, v_y = Num 0, v_z = Num 0\<rparr>\<rparr>"
      and its = "[\<lparr>item_position = \<lparr>v_x = Num 0, v_y = Num 0, v_z = Num 0\<rparr>,
                 item_quaternion = \<lparr>q_x = Num 0, q_y = Num 0, q_z = Num 0, q_w = Num 1\<rparr>,
                 item_scale = \<lparr>v_x = Num 1, v_y = Num 1, v_z = Num 1\<rparr>\<rparr>]"]
    doCancel_resets_items
    [where f = "\<lparr>items = None, params = ScaleFactory \<lparr>v_x = Num 1, v_y = Num 1, v_z = Num 1\<rparr> \<lparr>v_x = Num 0, v_y = Num 0, v_z = Num 0\<rparr>\<rparr>"]
  by (simp add: is_reset_def origin_def identity_def identity_quaternion_def manhattanLength_def
      lit_10e_6_def doCancel_def)

text \<open>
  C8 as stated fails: an item that stands at position (1, 2, 3) before any update is
  moved to (0, 0, 0) by \<open>doCancel\<close>, which is not the state it had before the operation;
  and on a factory whose items were never assigned, with no update ever called,
  \<open>doCancel\<close> throws a TypeError.
\<close>

theorem doCancel_moves_displaced_item:
  "doCancel
      \<lparr>items = Some [\<lparr>item_position = \<lparr>v_x = Num 1, v_y = Num 2, v_z = Num 3\<rparr>,
                 item_quaternion = \<lparr>q_x = Num 0, q_y = Num 0, q_z = Num 0, q_w = Num 1\<rparr>,
                 item_scale = \<lparr>v_x = Num 1, v_y = Num 1, v_z = Num 1\<rparr>\<rparr>],
        params = MoveFactory \<lparr>v_x = Num 0, v_y = Num 0, v_z = Num 0\<rparr>
                             \<lparr>v_x = Num 0, v_y = Num 0, v_z = Num 0\<rparr>\<rparr>
   = Inr \<lparr>items = Some [\<lparr>item_position = \<lparr>v_x = Num 0, v_y = Num 0, v_z = Num 0\<rparr>,
                 item_quaternion = \<lparr>q_x = Num 0, q_y = Num 0, q_z = Num 0, q_w = Num 1\<rparr>,
                 item_scale = \<lparr>v_x = Num 1, v_y = Num 1, v_z = Num 1\<rparr>\<rparr>],
          params = MoveFactory \<lparr>v_x = Num 0, v_y = Num 0, v_z = Num 0\<rparr>
                             \<lparr>v_x = Num 0, v_y = Num 0, v_z = Num 0\<rparr>\<rparr> \<and>
   [\<lparr>item_position = \<lparr>v_x = Num 0, v_y = Num 0, v_z = Num 0\<rparr>,
                 item_quaternion = \<lparr>q_x = Num 0, q_y = Num 0, q_z = Num 0, q_w = Num 1\<rparr>,
                 item_scale = \<lparr>v_x = Num 1, v_y = Num 1, v_z = Num 1\<rparr>\<rparr>]
   \<noteq> [\<lparr>item_position = \<lparr>v_x = Num 1, v_y = Num 2, v_z = Num 3\<rparr>,
                 item_quaternion = \<lparr>q_x = Num 0, q_y = Num 0, q_z = Num 0, q_w = Num 1\<rparr>,
                 item_scale = \<lparr>v_x = Num 1, v_y = Num 1, v_z = Num 1\<rparr>\<rparr>] \<and>
   doCancel \<lparr>items = None, params = MoveFactory \<lparr>v_x = Num 0, v_y = Num 0, v_z = Num 0\<rparr>
                             \<lparr>v_x = Num 0, v_y = Num 0, v_z = Num 0\<rparr>\<rparr> = Inl TypeError"
  by (simp add: doCancel_def origin_def identity_def identity_quaternion_def)

section \<open>Properties of the RecomputeEngine\<close>

lemma run_append:
  "run (evs1 @ evs2) e = (case run evs1 e of Inl err \<Rightarrow> Inl err | Inr e1 \<Rightarrow> run evs2 e1)"
  by (induction evs1 arbitrary: e) (auto split: sum.splits)

lemma step_serialized:
  "serialized e \<Longrightarrow> step ev e = Inr e1 \<Longrightarrow> serialized e1"
  by (cases ev; cases "phase e")
     (auto simp: serialized_def update_def resolved_def rejected_def dispatch_def settled_def
        to_Idle_def snapshot_def revert_def split: option.splits)

lemma run_serialized:
  "serialized e \<Longrightarrow> run evs e = Inr e1 \<Longrightarrow> serialized e1"
proof (induction evs arbitrary: e)
  case Nil
  then show ?case by simp
next
  case (Cons ev evs)
  then show ?case
    by (cases "step ev e") (auto dest: step_serialized)
qed

lemma new_engine_serialized: "serialized (new_engine keys ps)"
  by (simp add: serialized_def new_engine_def)

lemma step_callCount:
  "serialized e \<Longrightarrow> step ev e = Inr e1 \<Longrightarrow>
     callCount e \<le> callCount e1 \<and> callCount e1 \<le> callCount e + 1 \<and>
     (callCount e1 = callCount e + 1 \<longrightarrow>
        (ev = Update \<and> inFlight e = 0) \<or> ((ev = Resolve \<or> ev = Reject) \<and> inFlight e = 1))"
  by (cases ev; cases "phase e")
     (auto simp: serialized_def update_def resolved_def rejected_def dispatch_def settled_def
        to_Idle_def snapshot_def revert_def split: option.splits)

text \<open>
  C6. In every state the engine reaches from a new engine, by any sequence of events, at
  most one backend call is in flight, and one is in flight exactly when the engine is
  not Idle. An event issues at most one backend call, and it issues one only as an
  \<open>update()\<close> on an engine with no call in flight, or as the settling of the call in
  flight: backend calls never overlap.
\<close>

theorem at_most_one_call_in_flight:
  assumes "run evs (new_engine keys ps) = Inr e"
  shows "inFlight e \<le> 1 \<and> (inFlight e = 0) = (phase e = Idle) \<and>
    (\<forall>ev e1. step ev e = Inr e1 \<longrightarrow>
       inFlight e1 \<le> 1 \<and> callCount e \<le> callCount e1 \<and> callCount e1 \<le> callCount e + 1 \<and>
       (callCount e1 = callCount e + 1 \<longrightarrow>
          (ev = Update \<and> inFlight e = 0) \<or> ((ev = Resolve \<or> ev = Reject) \<and> inFlight e = 1)))"
proof -
  have s: "serialized e"
    using run_serialized[OF new_engine_serialized assms] .
  have "inFlight e1 \<le> 1" if "step ev e = Inr e1" for ev e1
    using step_serialized[OF s that] by (simp add: serialized_def)
  with s step_callCount[OF s] show ?thesis
    by (simp add: serialized_def)
qed


lemma run_updates_pending:
  "phase e = RunningWithPending \<Longrightarrow>
     run (replicate m Update) e =
       Inr (e\<lparr>promises := promises e @ replicate m (AwaitCall (callCount e + 1))\<rparr>)"
proof (induction m arbitrary: e)
  case 0
  then show ?case by simp
next
  case (Suc m)
  have "phase (update e) = RunningWithPending" "callCount (update e) = callCount e"
    "promises (update e) = promises e @ [AwaitCall (callCount e + 1)]"
    using Suc.prems by (simp_all add: update_def)
  with Suc.IH[of "update e"] Suc.prems show ?case
    by (simp add: update_def replicate_app_Cons_same)
qed

lemma run_updates_from_Idle:
  assumes "phase e = Idle"
  shows "run (replicate (Suc (Suc m)) Update) e =
     Inr ((dispatch e)\<lparr>phase := RunningWithPending,
            promises := promises e @ AwaitIdle # replicate (Suc m) (AwaitCall (callCount e + 2))\<rparr>)"
proof -
  let ?e2 = "update (update e)"
  have e2: "?e2 = (dispatch e)\<lparr>phase := RunningWithPending,
            promises := promises e @ [AwaitIdle, AwaitCall (callCount e + 2)]\<rparr>"
    using assms by (simp add: update_def dispatch_def)
  then have "phase ?e2 = RunningWithPending" by simp
  from run_updates_pending[OF this, of m]
  have "run (replicate m Update) ?e2 =
      Inr (?e2\<lparr>promises := promises ?e2 @ replicate m (AwaitCall (callCount ?e2 + 1))\<rparr>)" .
  then show ?thesis
    by (simp add: e2 dispatch_def replicate_app_Cons_same)
qed

text \<open>
  C1. On an Idle engine, \<open>n \<ge> 2\<close> calls of \<open>update()\<close> made before the first backend call
  settles issue one backend call; when it resolves, one trailing call is issued; when
  that resolves too, the engine is Idle with two backend calls issued in total. The
  promise of the first \<open>update()\<close> is still pending after the first call resolved and is
  resolved, with all the others, after the second.
\<close>

theorem updates_coalesce:
  assumes "phase e = Idle" and "2 \<le> n"
  shows "\<exists>e1 e2 e3.
    run (replicate n Update) e = Inr e1 \<and> step Resolve e1 = Inr e2 \<and> step Resolve e2 = Inr e3 \<and>
    callCount e1 = callCount e + 1 \<and> phase e1 = RunningWithPending \<and>
    promises e1 ! length (promises e) = AwaitIdle \<and>
    callCount e2 = callCount e + 2 \<and> phase e2 = Running \<and>
    promises e2 ! length (promises e) = AwaitIdle \<and>
    callCount e3 = callCount e + 2 \<and> phase e3 = Idle \<and>
    length (promises e3) = length (promises e) + n \<and>
    list_all (\<lambda>p. p = Resolved) (promises e3)"
proof -
  from assms(2) obtain m where n: "n = Suc (Suc m)"
    by (metis Suc_le_D numeral_2_eq_2 Suc_le_mono)
  let ?e1 = "(dispatch e)\<lparr>phase := RunningWithPending,
            promises := promises e @ AwaitIdle # replicate (Suc m) (AwaitCall (callCount e + 2))\<rparr>"
  have r1: "run (replicate n Update) e = Inr ?e1"
    unfolding n using run_updates_from_Idle[OF assms(1)] .
  obtain e2 where e2: "step Resolve ?e1 = Inr e2" "callCount e2 = callCount e + 2"
      "phase e2 = Running" "promises e2 ! length (promises e) = AwaitIdle"
      "length (promises e2) = length (promises e) + n"
    by (simp add: resolved_def dispatch_def settled_def snapshot_def resolve_call_def n nth_append)
  obtain e3 where e3: "step Resolve e2 = Inr e3" "callCount e3 = callCount e + 2"
      "phase e3 = Idle" "length (promises e3) = length (promises e) + n"
      "list_all (\<lambda>p. p = Resolved) (promises e3)"
    using e2 by (simp add: resolved_def to_Idle_def settled_def snapshot_def list_all_iff)
  have "callCount ?e1 = callCount e + 1" "phase ?e1 = RunningWithPending"
    "promises ?e1 ! length (promises e) = AwaitIdle"
    by (simp_all add: dispatch_def nth_append)
  with r1 e2 e3 show ?thesis by blast
qed

lemma reject_then_resolve:
  assumes "lastGood e = Some g" and "phase e = Running \<or> phase e = RunningWithPending"
  shows "\<exists>e1 e2.
    step Reject e = Inr e1 \<and> step Resolve e1 = Inr e2 \<and>
    phase e1 = Reverting \<and> callCount e1 = callCount e + 1 \<and>
    (\<forall>k \<in> set (trackedKeys e). parameters e1 k = g k) \<and>
    (\<forall>k. k \<notin> set (trackedKeys e) \<longrightarrow> parameters e1 k = parameters e k) \<and>
    callLog e1 = callLog e @ [parameters e1] \<and>
    phase e2 = Idle \<and> callCount e2 = callCount e + 1 \<and> parameters e2 = parameters e1 \<and>
    lastGood e2 = Some g \<and>
    length (promises e2) = length (promises e) \<and>
    list_all (\<lambda>p. p = Resolved) (promises e2)"
proof -
  let ?e1 = "dispatch ((revert (settled e))\<lparr>phase := Reverting\<rparr>)"
  have s1: "step Reject e = Inr ?e1"
    using assms(2) by (auto simp: rejected_def)
  have p1: "phase ?e1 = Reverting" "callCount ?e1 = callCount e + 1"
    "\<forall>k \<in> set (trackedKeys e). parameters ?e1 k = g k"
    "\<forall>k. k \<notin> set (trackedKeys e) \<longrightarrow> parameters ?e1 k = parameters e k"
    "callLog ?e1 = callLog e @ [parameters ?e1]" "lastGood ?e1 = Some g"
    "promises ?e1 = promises e"
    using assms(1) by (simp_all add: dispatch_def revert_def settled_def)
  let ?e2 = "to_Idle (settled ?e1)"
  have s2: "step Resolve ?e1 = Inr ?e2"
    using p1(1) by (simp add: resolved_def)
  have p2: "phase ?e2 = Idle" "callCount ?e2 = callCount e + 1" "parameters ?e2 = parameters ?e1"
    "lastGood ?e2 = Some g" "length (promises ?e2) = length (promises e)"
    "list_all (\<lambda>p. p = Resolved) (promises ?e2)"
    using p1 by (simp_all add: to_Idle_def settled_def list_all_iff)
  from s1 s2 p1 p2 show ?thesis by blast
qed

lemma update_from_Idle:
  "phase e = Idle \<Longrightarrow>
     phase (update e) = Running \<and> callCount (update e) = callCount e + 1 \<and>
     lastGood (update e) = lastGood e \<and> trackedKeys (update e) = trackedKeys e \<and>
     parameters (update e) = parameters e \<and> promises (update e) = promises e @ [AwaitIdle] \<and>
     callLog (update e) = callLog e @ [parameters e]"
  by (simp add: update_def dispatch_def)

text \<open>
  C2. When the backend call of an engine with a last-good snapshot rejects, the engine
  restores every tracked parameter from the snapshot (the other parameters are kept),
  issues exactly one more backend call, which reads the restored parameters, and is
  Reverting; when that call resolves the engine is Idle and every promise is resolved.
  An \<open>update()\<close> on an Idle engine whose backend call rejects advances the call count
  by 2.
\<close>

theorem failed_update_reverts_and_resyncs:
  "(lastGood e = Some g \<and> (phase e = Running \<or> phase e = RunningWithPending) \<longrightarrow>
     (\<exists>e1 e2.
        step Reject e = Inr e1 \<and> step Resolve e1 = Inr e2 \<and>
        phase e1 = Reverting \<and> callCount e1 = callCount e + 1 \<and>
        (\<forall>k \<in> set (trackedKeys e). parameters e1 k = g k) \<and>
        (\<forall>k. k \<notin> set (trackedKeys e) \<longrightarrow> parameters e1 k = parameters e k) \<and>
        callLog e1 = callLog e @ [parameters e1] \<and>
        phase e2 = Idle \<and> callCount e2 = callCount e + 1 \<and> parameters e2 = parameters e1 \<and>
        lastGood e2 = Some g \<and>
        length (promises e2) = length (promises e) \<and>
        list_all (\<lambda>p. p = Resolved) (promises e2))) \<and>
   (lastGood e = Some g \<and> phase e = Idle \<longrightarrow>
     (\<exists>e3.
        run [Update, Reject, Resolve] e = Inr e3 \<and>
        phase e3 = Idle \<and> callCount e3 = callCount e + 2 \<and>
        (\<forall>k \<in> set (trackedKeys e). parameters e3 k = g k) \<and>
        promises e3 = map (\<lambda>p. Resolved) (promises e) @ [Resolved]))"
proof -
  have second: "\<exists>e3.
        run [Update, Reject, Resolve] e = Inr e3 \<and>
        phase e3 = Idle \<and> callCount e3 = callCount e + 2 \<and>
        (\<forall>k \<in> set (trackedKeys e). parameters e3 k = g k) \<and>
        promises e3 = map (\<lambda>p. Resolved) (promises e) @ [Resolved]"
    if "lastGood e = Some g" "phase e = Idle"
    using that
    by (simp add: update_def dispatch_def rejected_def resolved_def revert_def settled_def
        to_Idle_def)
  show ?thesis
    using reject_then_resolve[of e g] second by blast
qed

lemma serial_round:
  assumes "phase e = Idle"
  shows "\<exists>e1. run (if ok then [Update, Resolve] else [Update, Reject, Resolve]) e = Inr e1 \<and>
     phase e1 = Idle \<and> callCount e1 = callCount e + (if ok then 1 else 2) \<and>
     promises e1 = map (\<lambda>p. Resolved) (promises e) @ [Resolved]"
  using assms
  by (simp add: update_def dispatch_def rejected_def resolved_def revert_def settled_def
      snapshot_def to_Idle_def split: option.splits)

lemma run_serial:
  assumes "phase e = Idle"
  shows "\<exists>e1. run (serial oks) e = Inr e1 \<and> phase e1 = Idle \<and>
     callCount e1 = callCount e + length oks + length (filter Not oks) \<and>
     promises e1 = map (\<lambda>p. if oks = [] then p else Resolved) (promises e) @
                   replicate (length oks) Resolved"
  using assms
proof (induction oks arbitrary: e)
  case Nil
  then show ?case by simp
next
  case (Cons ok oks)
  from serial_round[OF Cons.prems, of ok] obtain e1
    where e1: "run (if ok then [Update, Resolve] else [Update, Reject, Resolve]) e = Inr e1"
      "phase e1 = Idle" "callCount e1 = callCount e + (if ok then 1 else 2)"
      "promises e1 = map (\<lambda>p. Resolved) (promises e) @ [Resolved]"
    by blast
  from Cons.IH[OF e1(2)] obtain e2
    where e2: "run (serial oks) e1 = Inr e2" "phase e2 = Idle"
      "callCount e2 = callCount e1 + length oks + length (filter Not oks)"
      "promises e2 = map (\<lambda>p. if oks = [] then p else Resolved) (promises e1) @
                     replicate (length oks) Resolved"
    by blast
  have run: "run (serial (ok # oks)) e = Inr e2"
    using e1(1) e2(1) by (simp add: run_append del: run.simps)
  have "promises e2 = map (\<lambda>p. Resolved) (promises e) @ replicate (Suc (length oks)) Resolved"
    unfolding e2(4) e1(4) by (simp add: replicate_append_same flip: replicate_app_Cons_same)
  with run e2(2,3) e1(3) show ?case by auto
qed

text \<open>
  C3, as the engine has it. For non-overlapping \<open>update()\<close> calls the number of backend
  calls issued is the number of \<open>update()\<close> calls plus the number of calls that reject
  (each is followed by one resynchronization call); it is the number of \<open>update()\<close>
  calls when every backend call resolves. The promise of an \<open>update()\<close> is pending while
  its backend call is in flight and resolved once the call has resolved.
\<close>

theorem serial_updates_call_count:
  assumes "phase e = Idle"
  shows "\<exists>e1 ea eb.
     run (serial oks) e = Inr e1 \<and> phase e1 = Idle \<and>
     callCount e1 = callCount e + length oks + length (filter Not oks) \<and>
     (list_all id oks \<longrightarrow> callCount e1 = callCount e + length oks) \<and>
     length (promises e1) = length (promises e) + length oks \<and>
     list_all (\<lambda>p. p = Resolved) (drop (length (promises e)) (promises e1)) \<and>
     step Update e = Inr ea \<and> step Resolve ea = Inr eb \<and>
     callCount ea = callCount e + 1 \<and> promises ea ! length (promises e) = AwaitIdle \<and>
     callCount eb = callCount e + 1 \<and> promises eb ! length (promises e) = Resolved \<and>
     phase eb = Idle"
proof -
  from run_serial[OF assms, of oks] obtain e1
    where e1: "run (serial oks) e = Inr e1" "phase e1 = Idle"
      "callCount e1 = callCount e + length oks + length (filter Not oks)"
      "promises e1 = map (\<lambda>p. if oks = [] then p else Resolved) (promises e) @
                     replicate (length oks) Resolved"
    by blast
  have all_ok: "callCount e1 = callCount e + length oks" if "list_all id oks"
  proof -
    from that have "filter Not oks = []"
      by (induction oks) auto
    with e1(3) show ?thesis by simp
  qed
  have new: "length (promises e1) = length (promises e) + length oks"
    "list_all (\<lambda>p. p = Resolved) (drop (length (promises e)) (promises e1))"
    unfolding e1(4) by (simp_all add: list_all_iff)
  have ea: "step Update e = Inr (update e)" "callCount (update e) = callCount e + 1"
    "promises (update e) ! length (promises e) = AwaitIdle" "phase (update e) = Running"
    using assms by (simp_all add: update_def dispatch_def)
  have eb: "step Resolve (update e) = Inr (to_Idle (snapshot (settled (update e))))"
    "callCount (to_Idle (snapshot (settled (update e)))) = callCount e + 1"
    "promises (to_Idle (snapshot (settled (update e)))) ! length (promises e) = Resolved"
    "phase (to_Idle (snapshot (settled (update e)))) = Idle"
    using assms by (simp_all add: resolved_def update_def dispatch_def to_Idle_def snapshot_def
        settled_def nth_append)
  from e1(1,2,3) all_ok new ea(1,2,3) eb show ?thesis by blast
qed

text \<open>
  C3 as stated fails on the last test of unnamed/part_000 (Scenario D of the
  specification): two \<open>update()\<close> calls, each awaited, the second of which rejects, issue
  three backend calls.
\<close>

theorem serial_update_with_rejection:
  "map_sum id (\<lambda>e. (callCount e, phase e, promises e, parameters e ''revertOnError''))
     (run [SetParameter ''revertOnError'' 1, Update, Resolve,
           SetParameter ''revertOnError'' 2, Update, Reject, Resolve]
          (new_engine [''revertOnError''] [''revertOnError'' \<mapsto> 0::nat]))
     = Inr (3, Idle, [Resolved, Resolved], Some 1) \<and>
   length (filter (\<lambda>ev. ev = Update)
     [SetParameter ''revertOnError'' (1::nat), Update, Resolve,
      SetParameter ''revertOnError'' 2, Update, Reject, Resolve]) = 2"
  by (simp add: new_engine_def update_def dispatch_def rejected_def resolved_def revert_def
      settled_def snapshot_def to_Idle_def)


theorem at_most_one_call_in_flight_witness:
  "\<exists>e. run [Update, SetParameter ''revertOnError'' 2, Update, Update, Resolve, Reject]
          (new_engine [''revertOnError''] [''revertOnError'' \<mapsto> 0::nat]) = Inr e \<and>
       inFlight e \<le> 1 \<and> inFlight e = 1 \<and> phase e = Reverting \<and> callCount e = 3"
proof -
  obtain e where e:
    "run [Update, SetParameter ''revertOnError'' 2, Update, Update, Resolve, Reject]
          (new_engine [''revertOnError''] [''revertOnError'' \<mapsto> 0::nat]) = Inr e"
    "phase e = Reverting" "callCount e = 3"
    by (simp add: new_engine_def update_def dispatch_def rejected_def resolved_def revert_def
        settled_def snapshot_def to_Idle_def resolve_call_def)
  from at_most_one_call_in_flight[OF e(1)] e show ?thesis
    by (cases "inFlight e = 0") auto
qed

theorem updates_coalesce_witness:
  "\<exists>e1 e2 e3.
    run (replicate 7 Update) (new_engine [''revertOnError''] [''revertOnError'' \<mapsto> 0::nat]) = Inr e1 \<and>
    step Resolve e1 = Inr e2 \<and> step Resolve e2 = Inr e3 \<and>
    callCount e1 = 1 \<and> phase e1 = RunningWithPending \<and> promises e1 ! 0 = AwaitIdle \<and>
    callCount e2 = 2 \<and> phase e2 = Running \<and> promises e2 ! 0 = AwaitIdle \<and>
    callCount e3 = 2 \<and> phase e3 = Idle \<and> length (promises e3) = 7 \<and>
    list_all (\<lambda>p. p = Resolved) (promises e3)"
proof -
  have a: "phase (new_engine [''revertOnError''] [''revertOnError'' \<mapsto> 0::nat]) = Idle"
    by (simp add: new_engine_def)
  have b: "(2::nat) \<le> 7" by simp
  from updates_coalesce[OF a b] show ?thesis
    by (simp add: new_engine_def numeral_2_eq_2)
qed

theorem failed_update_reverts_and_resyncs_witness:
  "(\<exists>e1 e2.
      step Reject
        \<lparr>parameters = [''revertOnError'' \<mapsto> 2::nat], trackedKeys = [''revertOnError''],
         lastGood = Some [''revertOnError'' \<mapsto> 1], callCount = 2, phase = Running,
         inFlight = 1, callLog = [[''revertOnError'' \<mapsto> 1], [''revertOnError'' \<mapsto> 2]],
         promises = [Resolved, AwaitIdle]\<rparr> = Inr e1 \<and>
      step Resolve e1 = Inr e2 \<and>
      phase e1 = Reverting \<and> callCount e1 = 3 \<and>
      parameters e1 ''revertOnError'' = Some 1 \<and>
      phase e2 = Idle \<and> callCount e2 = 3 \<and> parameters e2 ''revertOnError'' = Some 1 \<and>
      promises e2 = [Resolved, Resolved]) \<and>
   (\<exists>e3.
      run [Update, Reject, Resolve]
        \<lparr>parameters = [''revertOnError'' \<mapsto> 2::nat], trackedKeys = [''revertOnError''],
         lastGood = Some [''revertOnError'' \<mapsto> 1], callCount = 1, phase = Idle,
         inFlight = 0, callLog = [[''revertOnError'' \<mapsto> 1]],
         promises = [Resolved]\<rparr> = Inr e3 \<and>
      phase e3 = Idle \<and> callCount e3 = 3 \<and> parameters e3 ''revertOnError'' = Some 1 \<and>
      promises e3 = [Resolved, Resolved])"
  using failed_update_reverts_and_resyncs
    [of "\<lparr>parameters = [''revertOnError'' \<mapsto> 2::nat], trackedKeys = [''revertOnError''],
         lastGood = Some [''revertOnError'' \<mapsto> 1], callCount = 2, phase = Running,
         inFlight = 1, callLog = [[''revertOnError'' \<mapsto> 1], [''revertOnError'' \<mapsto> 2]],
         promises = [Resolved, AwaitIdle]\<rparr>" "[''revertOnError'' \<mapsto> 1]"]
    failed_update_reverts_and_resyncs
    [of "\<lparr>parameters = [''revertOnError'' \<mapsto> 2::nat], trackedKeys = [''revertOnError''],
         lastGood = Some [''revertOnError'' \<mapsto> 1], callCount = 1, phase = Idle,
         inFlight = 0, callLog = [[''revertOnError'' \<mapsto> 1]],
         promises = [Resolved]\<rparr>" "[''revertOnError'' \<mapsto> 1]"]
  by (simp add: update_def dispatch_def rejected_def resolved_def revert_def settled_def
      to_Idle_def)

theorem serial_updates_call_count_witness:
  "\<exists>e1. run (serial [True, False, True])
            (new_engine [''revertOnError''] [''revertOnError'' \<mapsto> 0::nat]) = Inr e1 \<and>
     phase e1 = Idle \<and> callCount e1 = 4 \<and> promises e1 = [Resolved, Resolved, Resolved]"
proof -
  have a: "phase (new_engine [''revertOnError''] [''revertOnError'' \<mapsto> 0::nat]) = Idle"
    by (simp add: new_engine_def)
  from serial_updates_call_count[OF a, of "[True, False, True]"] show ?thesis
    by (simp add: new_engine_def update_def dispatch_def rejected_def resolved_def revert_def
      settled_def snapshot_def to_Idle_def)
qed

end
